theory Spec2Isabelle
  imports Main "HOL-Library.Sublist"
begin

section \<open>Python strings\<close>

text \<open>
  Strings are lists of characters. The string methods the two modules call are written
  out here. \<open>str.lower\<close> and \<open>str.strip\<close> are modelled on ASCII text: the twenty-six
  upper-case letters are mapped to lower case, every other character is left alone, and
  the white space removed by \<open>strip\<close> is the ASCII white space of Python
  (\<open>\t \n \v \f \r\<close>, the separators \<open>0x1c\<close> to \<open>0x1f\<close>, and the blank).
\<close>

definition lower_char :: "char \<Rightarrow> char" where
  "lower_char c =
     (case map_of (zip ''ABCDEFGHIJKLMNOPQRSTUVWXYZ'' ''abcdefghijklmnopqrstuvwxyz'') c of
        Some d \<Rightarrow> d
      | None \<Rightarrow> c)"

definition lower :: "string \<Rightarrow> string" where
  "lower s = map lower_char s"

definition is_space :: "char \<Rightarrow> bool" where
  "is_space c \<longleftrightarrow>
     c \<in> set [CHR 0x09, CHR 0x0A, CHR 0x0B, CHR 0x0C, CHR 0x0D,
               CHR 0x1C, CHR 0x1D, CHR 0x1E, CHR 0x1F, CHR 0x20]"

definition strip :: "string \<Rightarrow> string" where
  "strip s = rev (dropWhile is_space (rev (dropWhile is_space s)))"

text \<open>\<open>s.split(c)\<close> for a separator of one character: empty fields are kept.\<close>

fun split_char :: "char \<Rightarrow> string \<Rightarrow> string list" where
  "split_char c [] = [[]]"
| "split_char c (x # xs) =
     (if x = c then [] # split_char c xs
      else (case split_char c xs of
              [] \<Rightarrow> [[x]]
            | w # ws \<Rightarrow> (x # w) # ws))"

text \<open>\<open>sep.join(xs)\<close>.\<close>

fun join_str :: "string \<Rightarrow> string list \<Rightarrow> string" where
  "join_str sep [] = []"
| "join_str sep [x] = x"
| "join_str sep (x # y # ys) = x @ sep @ join_str sep (y # ys)"

text \<open>
  \<open>s.replace(old, new)\<close>: the occurrences of \<open>old\<close> are found from the left and do
  not overlap; an empty \<open>old\<close> matches before every character and at the end.
\<close>

function replace :: "string \<Rightarrow> string \<Rightarrow> string \<Rightarrow> string" where
  "replace old new s =
     (if old = [] then new @ concat (map (\<lambda>c. c # new) s)
      else if s = [] then []
      else if prefix old s then new @ replace old new (drop (length old) s)
      else hd s # replace old new (tl s))"
  by pat_completeness auto
termination
  by (relation "measure (\<lambda>(old, new, s). length s)") auto

declare replace.simps [simp del]

section \<open>Exceptions, outcomes and the trace of effects\<close>

text \<open>
  An exception is a value. \<open>RuntimeError\<close> is the class the handlers of
  \<open>edk2_setup.py\<close> catch, \<open>HTTPError\<close> the one \<open>nuget.py\<close> catches;
  \<open>Exception\<close> stands for an exception of any other class. Each carries the text that
  \<open>str(e)\<close> returns.
\<close>

datatype exn =
    RuntimeError string
  | IndexError string
  | HTTPError string
  | Exception string

fun str_exn :: "exn \<Rightarrow> string" where
  "str_exn (RuntimeError m) = m"
| "str_exn (IndexError m) = m"
| "str_exn (HTTPError m) = m"
| "str_exn (Exception m) = m"

fun is_RuntimeError :: "exn \<Rightarrow> bool" where
  "is_RuntimeError (RuntimeError m) = True"
| "is_RuntimeError e = False"

fun is_HTTPError :: "exn \<Rightarrow> bool" where
  "is_HTTPError (HTTPError m) = True"
| "is_HTTPError e = False"

text \<open>
  A call either returns a value, raises, or (for the recursive walk through nested
  submodules only, which is bounded by a depth budget) runs out of budget.
\<close>

datatype 'a outcome = Ret 'a | Raise exn | Timeout

text \<open>Sequencing: the rest of a block runs only when the first part returned.\<close>

definition andthen ::
  "'a outcome \<times> 's \<Rightarrow> ('a \<Rightarrow> 's \<Rightarrow> 'b outcome \<times> 's) \<Rightarrow> 'b outcome \<times> 's" where
  "andthen m f =
     (case m of
        (Ret x, s) \<Rightarrow> f x s
      | (Raise e, s) \<Rightarrow> (Raise e, s)
      | (Timeout, s) \<Rightarrow> (Timeout, s))"

text \<open>\<open>try: m except RuntimeError as e: h\<close>.\<close>

definition except_RuntimeError ::
  "'a outcome \<times> 's \<Rightarrow> (exn \<Rightarrow> 's \<Rightarrow> 'a outcome \<times> 's) \<Rightarrow> 'a outcome \<times> 's" where
  "except_RuntimeError m h =
     (case m of
        (Raise e, s) \<Rightarrow> if is_RuntimeError e then h e s else (Raise e, s)
      | (Ret x, s) \<Rightarrow> (Ret x, s)
      | (Timeout, s) \<Rightarrow> (Timeout, s))"

text \<open>
  An external command as \<open>RunCmd\<close> receives it: the program, its parameter string and
  the working directory.
\<close>

record call =
  cmd :: string
  parameters :: string
  workingdir :: "string option"

datatype level = INFO | PROGRESS | ERROR

text \<open>
  What a run does to the outside is recorded in order: every command with its exit
  status, every log record, every version report, every URL opened.
\<close>

datatype event =
    Run call int
  | Log level string
  | ReportVersion string string
  | UrlOpen string

fun commands :: "event list \<Rightarrow> (call \<times> int) list" where
  "commands [] = []"
| "commands (Run c rc # es) = (c, rc) # commands es"
| "commands (e # es) = commands es"

section \<open>The environment\<close>

text \<open>
  A section of a \<open>.gitmodules\<close> file as \<open>configparser\<close> presents it, with the two
  options the code reads; the special configuration document as \<open>yaml\<close> loads it:
  a list of rules, each with the keys \<open>url\<close> and \<open>sub\<close>.
\<close>

record config_section =
  sec_name :: string
  sec_path :: string
  sec_url :: string

record rule =
  rule_url :: string
  rule_sub :: string

record special_config =
  url_substitutions :: "rule list"

text \<open>
  Everything outside the two modules is a parameter: the workspace \<open>'w\<close> (the disk and
  the remotes) and the functions that inspect or change it. \<open>run\<close> executes a command
  in a workspace and gives its exit status, its output and the workspace it leaves;
  \<open>run_error\<close> is the exception \<open>RunCmd\<close> raises for a nonzero exit when asked to;
  \<open>read_config\<close> is \<open>configparser\<close> reading a file (no section when the file is
  missing, an exception when it cannot be read as sections with \<open>path\<close> and
  \<open>url\<close>); \<open>load_yaml\<close> opens and loads the special configuration.
\<close>

record 'w env =
  run :: "'w \<Rightarrow> call \<Rightarrow> int \<times> string \<times> 'w"
  run_error :: "call \<Rightarrow> int \<Rightarrow> exn"
  version_compare :: "string \<Rightarrow> string \<Rightarrow> int"
  path_exists :: "'w \<Rightarrow> string \<Rightarrow> bool"
  path_join :: "string \<Rightarrow> string \<Rightarrow> string"
  normpath :: "string \<Rightarrow> string"
  read_config :: "'w \<Rightarrow> string \<Rightarrow> exn + config_section list"
  load_yaml :: "'w \<Rightarrow> string \<Rightarrow> exn + special_config"

record 'w state =
  world :: 'w
  trace :: "event list"

definition logging :: "level \<Rightarrow> string \<Rightarrow> 'w state \<Rightarrow> 'w state" where
  "logging lvl msg st = st\<lparr>trace := trace st @ [Log lvl msg]\<rparr>"

text \<open>
  \<open>RunCmd\<close> belongs to the tool library, an external collaborator: it executes a
  command in a working directory, returns its exit status, hands over the captured
  output, and raises on a nonzero exit when \<open>raise_exception_on_nonzero\<close> is set.
\<close>

definition RunCmd ::
  "'w env \<Rightarrow> call \<Rightarrow> bool \<Rightarrow> 'w state \<Rightarrow> (int \<times> string) outcome \<times> 'w state" where
  "RunCmd env c raise_exception_on_nonzero st =
     (case run env (world st) c of
        (rc, out, w') \<Rightarrow>
          (let st' = st\<lparr>world := w', trace := trace st @ [Run c rc]\<rparr> in
           if raise_exception_on_nonzero \<and> rc \<noteq> 0 then (Raise (run_error env c rc), st')
           else (Ret (rc, out), st')))"

definition git :: "string \<Rightarrow> string option \<Rightarrow> call" where
  "git params wd = \<lparr>cmd = ''git'', parameters = params, workingdir = wd\<rparr>"


section \<open>Special setup\<close>

text \<open>\<open>RequiredSubmodule\<close>, and the attributes of the invocable that \<open>Go\<close> reads.\<close>

record required_submodule =
  rs_path :: string
  rs_recursive :: bool

record invocable =
  force_it :: bool
  omnicache_path :: "string option"
  special_file :: "string option"
  GetRequiredSubmodules :: "required_submodule list"
  GetWorkspaceRoot :: string

text \<open>The dictionary \<open>get_repo_submodules\<close> builds for each section.\<close>

record submodule_info =
  sm_name :: string
  sm_path :: string
  sm_url :: string

definition get_repo_submodules ::
  "'w env \<Rightarrow> string \<Rightarrow> 'w state \<Rightarrow> submodule_info list outcome \<times> 'w state" where
  "get_repo_submodules env repo_path st =
     (case read_config env (world st) (path_join env repo_path ''.gitmodules'') of
        Inl e \<Rightarrow> (Raise e, st)
      | Inr sections \<Rightarrow>
          (Ret (map (\<lambda>sec.
                  \<lparr>sm_name = replace [CHR 0x22] []
                               (replace (''submodule '' @ [CHR 0x22]) [] (sec_name sec)),
                   sm_path = sec_path sec,
                   sm_url = sec_url sec\<rparr>) sections), st))"

fun get_url_substitution_from_list :: "string \<Rightarrow> rule list \<Rightarrow> string option" where
  "get_url_substitution_from_list url [] = None"
| "get_url_substitution_from_list url (sub # sub_list) =
     (if lower url = lower (rule_url sub) then Some (rule_sub sub)
      else get_url_substitution_from_list url sub_list)"

text \<open>The two commands of \<open>special_init_submodule\<close>.\<close>

definition set_url_call :: "string \<Rightarrow> submodule_info \<Rightarrow> string \<Rightarrow> call" where
  "set_url_call root_path submodule_info url_sub =
     git (join_str '' '' [''submodule'', ''set-url'', ''--'', sm_name submodule_info, url_sub])
       (Some root_path)"

definition init_call :: "string \<Rightarrow> submodule_info \<Rightarrow> call" where
  "init_call root_path submodule_info =
     git (join_str '' '' [''submodule'', ''update'', ''--init'', ''--'', sm_path submodule_info])
       (Some root_path)"

text \<open>
  \<open>special_init_submodule\<close> calls itself for the submodules it finds in the repository
  it has just initialised, so its depth is decided by the disk. The first argument
  bounds the depth of the calls; \<open>special_init_submodules\<close> is the loop over the nested
  entries.
\<close>

fun special_init_submodule ::
  "nat \<Rightarrow> 'w env \<Rightarrow> string \<Rightarrow> submodule_info \<Rightarrow> special_config \<Rightarrow> bool \<Rightarrow> 'w state
     \<Rightarrow> bool outcome \<times> 'w state"
and special_init_submodules ::
  "nat \<Rightarrow> 'w env \<Rightarrow> string \<Rightarrow> submodule_info list \<Rightarrow> special_config \<Rightarrow> bool \<Rightarrow> 'w state
     \<Rightarrow> bool outcome \<times> 'w state"
where
  "special_init_submodule 0 env root_path submodule_info special_config recursive st =
     (Timeout, st)"
| "special_init_submodule (Suc depth) env root_path submodule_info special_config recursive st =
     (let repo_path = normpath env (path_join env root_path (sm_path submodule_info));
          st1 = logging PROGRESS
                  (''## Special init of repo '' @ [CHR 0x27] @ repo_path @ [CHR 0x27]) st;
          url_sub = get_url_substitution_from_list (sm_url submodule_info)
                      (url_substitutions special_config)
      in andthen
           (case url_sub of
              Some u \<Rightarrow>
                andthen (RunCmd env (set_url_call root_path submodule_info u) False st1)
                  (\<lambda>(rc, out) st2.
                     if rc \<noteq> 0
                     then (Ret False,
                           logging ERROR (''-- To: '' @ u)
                             (logging ERROR (''-- From: '' @ sm_url submodule_info)
                               (logging ERROR (''Failed to update url for '' @ repo_path) st2)))
                     else (Ret True, st2))
            | None \<Rightarrow> (Ret True, st1))
           (\<lambda>url_ok st3.
              if \<not> url_ok then (Ret False, st3)
              else andthen (RunCmd env (init_call root_path submodule_info) False st3)
                     (\<lambda>(rc, out) st4.
                        if rc \<noteq> 0
                        then (Ret False,
                              logging ERROR (''Failed to initialize repo '' @ repo_path) st4)
                        else if recursive
                        then andthen (get_repo_submodules env repo_path st4)
                               (\<lambda>submodules st5.
                                  special_init_submodules depth env repo_path submodules
                                    special_config recursive st5)
                        else (Ret True, st4))))"
| "special_init_submodules depth env repo_path [] special_config recursive st = (Ret True, st)"
| "special_init_submodules depth env repo_path (sm # sms) special_config recursive st =
     andthen (special_init_submodule depth env repo_path sm special_config recursive st)
       (\<lambda>ok st'.
          if \<not> ok then (Ret False, st')
          else special_init_submodules depth env repo_path sms special_config recursive st')"

text \<open>
  The two loops at the end of \<open>SpecialSetup\<close>: for each submodule of the root
  repository, each required submodule with the same path is initialised; a failed
  initialisation raises \<open>RuntimeError\<close>.
\<close>

fun SpecialSetup_required ::
  "nat \<Rightarrow> 'w env \<Rightarrow> string \<Rightarrow> submodule_info \<Rightarrow> special_config \<Rightarrow> required_submodule list
     \<Rightarrow> 'w state \<Rightarrow> unit outcome \<times> 'w state" where
  "SpecialSetup_required depth env root_path sm special_config [] st = (Ret (), st)"
| "SpecialSetup_required depth env root_path sm special_config (req_sm # reqs) st =
     andthen
       (if sm_path sm = rs_path req_sm
        then andthen
               (special_init_submodule depth env root_path sm special_config
                  (rs_recursive req_sm) st)
               (\<lambda>ok st'.
                  if \<not> ok
                  then (Raise (RuntimeError
                          (''failed to init '' @ [CHR 0x27]
                             @ path_join env root_path (sm_path sm) @ [CHR 0x27])), st')
                  else (Ret (), st'))
        else (Ret (), st))
       (\<lambda>_ st'. SpecialSetup_required depth env root_path sm special_config reqs st')"

fun SpecialSetup_root ::
  "nat \<Rightarrow> 'w env \<Rightarrow> string \<Rightarrow> special_config \<Rightarrow> submodule_info list
     \<Rightarrow> required_submodule list \<Rightarrow> 'w state \<Rightarrow> unit outcome \<times> 'w state" where
  "SpecialSetup_root depth env root_path special_config [] reqs st = (Ret (), st)"
| "SpecialSetup_root depth env root_path special_config (sm # sms) reqs st =
     andthen (SpecialSetup_required depth env root_path sm special_config reqs st)
       (\<lambda>_ st'. SpecialSetup_root depth env root_path special_config sms reqs st')"

definition SpecialSetup ::
  "nat \<Rightarrow> 'w env \<Rightarrow> invocable \<Rightarrow> string \<Rightarrow> required_submodule list \<Rightarrow> 'w state
     \<Rightarrow> int outcome \<times> 'w state" where
  "SpecialSetup depth env self special_config_path required_submodules st =
     (let st1 = logging PROGRESS
                  (''## Performing a special setup using file: '' @ special_config_path) st
      in case load_yaml env (world st1) special_config_path of
           Inl e \<Rightarrow> (Raise e, st1)
         | Inr special_config \<Rightarrow>
             except_RuntimeError
               (let root_path = GetWorkspaceRoot self
                in andthen (get_repo_submodules env root_path st1)
                     (\<lambda>root_submodules st2.
                        andthen
                          (SpecialSetup_root depth env root_path special_config
                             root_submodules required_submodules st2)
                          (\<lambda>_ st3. (Ret 0, st3))))
               (\<lambda>e st'.
                  (Ret (- 1),
                   logging ERROR (str_exn e) (logging ERROR ''FAILED!\<newline>'' st'))))"

section \<open>Standard setup\<close>

text \<open>The first lines of \<open>Go\<close>: git must be installed and recent enough.\<close>

definition min_git :: string where
  "min_git = ''2.11.0''"

definition check_git_version :: "'w env \<Rightarrow> 'w state \<Rightarrow> unit outcome \<times> 'w state" where
  "check_git_version env st =
     andthen (RunCmd env (git ''--version'' None) True st)
       (\<lambda>(rc, out) st1.
          let git_version = strip out;
              st2 = st1\<lparr>trace := trace st1 @ [ReportVersion ''Git'' git_version]\<rparr>
          in case drop 2 (split_char CHR '' '' git_version) of
               [] \<Rightarrow> (Raise (IndexError ''list index out of range''), st2)
             | v # _ \<Rightarrow>
                 (let cur_git = join_str ''.'' (take 3 (split_char CHR ''.'' v))
                  in if version_compare env min_git cur_git > 0
                     then (Raise (RuntimeError
                             (''Please upgrade Git! Current version is '' @ cur_git
                                @ ''. Minimum is '' @ min_git @ ''.'')), st2)
                     else (Ret (), st2)))"

text \<open>
  Pre-setup cleaning, run when \<open>--force\<close> is given. \<open>clean_submodules\<close> is the loop
  over the required submodules, \<open>force_clean\<close> the whole \<open>try\<close> statement: it
  returns \<open>False\<close> when its handler has run, which makes \<open>Go\<close> return \<open>None\<close>.
\<close>

fun clean_submodules ::
  "'w env \<Rightarrow> string \<Rightarrow> required_submodule list \<Rightarrow> 'w state \<Rightarrow> unit outcome \<times> 'w state" where
  "clean_submodules env workspace_path [] st = (Ret (), st)"
| "clean_submodules env workspace_path (required_submodule # rest) st =
     (let st1 = logging PROGRESS
                  (''## Cleaning Git repository: '' @ rs_path required_submodule @ ''...'') st;
          required_submodule_path =
            normpath env (path_join env workspace_path (rs_path required_submodule))
      in andthen (RunCmd env (git ''reset --hard'' (Some required_submodule_path)) True st1)
           (\<lambda>_ st2.
              andthen (RunCmd env (git ''clean -xffd'' (Some required_submodule_path)) True st2)
                (\<lambda>_ st3.
                   clean_submodules env workspace_path rest
                     (logging PROGRESS ''Done.\<newline>'' st3))))"

definition GetLoggingFileName :: "string \<Rightarrow> string" where
  "GetLoggingFileName loggerType = ''SETUPLOG''"

definition force_clean :: "'w env \<Rightarrow> invocable \<Rightarrow> 'w state \<Rightarrow> bool outcome \<times> 'w state" where
  "force_clean env self st =
     except_RuntimeError
       (let workspace_path = GetWorkspaceRoot self;
            st1 = logging PROGRESS ''## Cleaning the root repo...'' st
        in andthen (RunCmd env (git ''reset --hard'' (Some workspace_path)) True st1)
             (\<lambda>_ st2.
                let ignore_files =
                      ''-e Build/'' @ GetLoggingFileName ''txt'' @ ''.txt -e Build/''
                        @ GetLoggingFileName ''md'' @ ''.md''
                in andthen
                     (RunCmd env (git (''clean -xffd '' @ ignore_files) (Some workspace_path))
                        True st2)
                     (\<lambda>_ st3.
                        andthen
                          (clean_submodules env workspace_path (GetRequiredSubmodules self)
                             (logging PROGRESS ''Done.\<newline>'' st3))
                          (\<lambda>_ st4. (Ret True, st4)))))
       (\<lambda>e st'.
          (Ret False,
           logging ERROR (str_exn e)
             (logging ERROR ''Error while trying to clean the environment!''
               (logging ERROR ''FAILED!\<newline>'' st'))))"

text \<open>
  STEP 1 of \<open>Go\<close>: one \<open>submodule sync\<close> for all the required paths. \<open>sync_repos\<close>
  is the \<open>try\<close> statement; it returns \<open>False\<close> when its handler has run, which
  makes \<open>Go\<close> return \<open>None\<close>.
\<close>

definition sync_call :: "invocable \<Rightarrow> call" where
  "sync_call self =
     git (''submodule sync -- '' @ join_str '' '' (map rs_path (GetRequiredSubmodules self)))
       (Some (GetWorkspaceRoot self))"

definition sync_repos :: "'w env \<Rightarrow> invocable \<Rightarrow> 'w state \<Rightarrow> bool outcome \<times> 'w state" where
  "sync_repos env self st =
     except_RuntimeError
       (let submodule_string = join_str '' '' (map rs_path (GetRequiredSubmodules self));
            st1 = logging PROGRESS
                    (''## Syncing Git repositories: '' @ submodule_string @ ''...'') st
        in andthen (RunCmd env (sync_call self) True st1)
             (\<lambda>_ st2. (Ret True, logging PROGRESS ''Done.\<newline>'' st2)))
       (\<lambda>e st'.
          (Ret False,
           logging ERROR (str_exn e)
             (logging ERROR ''Error while trying to synchronize the environment!''
               (logging ERROR ''FAILED!\<newline>'' st'))))"

text \<open>
  STEP 2 of \<open>Go\<close>, for one required submodule. \<open>check_skip\<close> is STEP 2a (the value of
  \<open>skip_repo\<close>), \<open>fetch_repo\<close> the body of the \<open>try\<close> statement, \<open>fetch_repo_try\<close>
  the statement with its handler, and \<open>fetch_repos\<close> the loop.
\<close>

definition diff_call :: "invocable \<Rightarrow> required_submodule \<Rightarrow> call" where
  "diff_call self required_submodule =
     git (''diff '' @ rs_path required_submodule) (Some (GetWorkspaceRoot self))"

definition update_call :: "invocable \<Rightarrow> required_submodule \<Rightarrow> call" where
  "update_call self required_submodule =
     git (''submodule update --init''
            @ (if rs_recursive required_submodule then '' --recursive'' else [])
            @ '' --progress''
            @ (case omnicache_path self of
                 Some p \<Rightarrow> '' --reference '' @ p
               | None \<Rightarrow> [])
            @ '' '' @ rs_path required_submodule)
       (Some (GetWorkspaceRoot self))"

definition check_skip ::
  "'w env \<Rightarrow> invocable \<Rightarrow> required_submodule \<Rightarrow> 'w state \<Rightarrow> bool outcome \<times> 'w state" where
  "check_skip env self required_submodule st =
     (let required_submodule_path =
            normpath env (path_join env (GetWorkspaceRoot self) (rs_path required_submodule))
      in if path_exists env (world st) required_submodule_path \<and> \<not> force_it self
         then andthen (RunCmd env (diff_call self required_submodule) True st)
                (\<lambda>(rc, out) st1.
                   let git_data = strip out
                   in if git_data \<noteq> []
                      then (Ret True,
                            logging INFO ''-- Skipping fetch!''
                              (logging INFO
                                 ''-- NOTE: Repo currently exists and appears to have local changes!''
                                 st1))
                      else (Ret False, st1))
         else (Ret False, st))"

definition fetch_repo ::
  "'w env \<Rightarrow> invocable \<Rightarrow> required_submodule \<Rightarrow> 'w state \<Rightarrow> unit outcome \<times> 'w state" where
  "fetch_repo env self required_submodule st =
     andthen
       (check_skip env self required_submodule
          (logging PROGRESS
             (''## Checking Git repository: '' @ rs_path required_submodule @ ''...'') st))
       (\<lambda>skip_repo st1.
          andthen
            (if \<not> skip_repo \<or> force_it self
             then andthen
                    (RunCmd env (update_call self required_submodule) False
                       (logging INFO ''## Fetching repo.'' st1))
                    (\<lambda>(ret, out) st2.
                       if ret \<noteq> 0
                       then (Raise (RuntimeError ''Unable to checkout repo due to error''),
                             logging ERROR (''Failed to fetch '' @ rs_path required_submodule) st2)
                       else (Ret (), st2))
             else (Ret (), st1))
            (\<lambda>_ st3. (Ret (), logging PROGRESS ''Done.\<newline>'' st3)))"

definition fetch_repo_try ::
  "'w env \<Rightarrow> invocable \<Rightarrow> required_submodule \<Rightarrow> 'w state \<Rightarrow> unit outcome \<times> 'w state" where
  "fetch_repo_try env self required_submodule st =
     except_RuntimeError (fetch_repo env self required_submodule st)
       (\<lambda>e st'.
          (Ret (),
           logging ERROR (str_exn e)
             (logging ERROR ''Failed to fetch required repository!\<newline>''
               (logging ERROR ''FAILED!\<newline>'' st'))))"

fun fetch_repos ::
  "'w env \<Rightarrow> invocable \<Rightarrow> required_submodule list \<Rightarrow> 'w state \<Rightarrow> unit outcome \<times> 'w state" where
  "fetch_repos env self [] st = (Ret (), st)"
| "fetch_repos env self (required_submodule # rest) st =
     andthen (fetch_repo_try env self required_submodule st)
       (\<lambda>_ st'. fetch_repos env self rest st')"

text \<open>
  The standard path of \<open>Go\<close>, from STEP 1 to the final \<open>return 0\<close>; the value is
  \<open>None\<close> for a bare \<open>return\<close>.
\<close>

definition standard_setup ::
  "'w env \<Rightarrow> invocable \<Rightarrow> 'w state \<Rightarrow> int option outcome \<times> 'w state" where
  "standard_setup env self st =
     andthen (sync_repos env self st)
       (\<lambda>synced st1.
          if \<not> synced then (Ret None, st1)
          else andthen (fetch_repos env self (GetRequiredSubmodules self) st1)
                 (\<lambda>_ st2. (Ret (Some 0), st2)))"

text \<open>\<open>Go\<close>. Its first argument bounds the depth of the special walk.\<close>

definition Go ::
  "nat \<Rightarrow> 'w env \<Rightarrow> invocable \<Rightarrow> 'w state \<Rightarrow> int option outcome \<times> 'w state" where
  "Go depth env self st =
     (let required_submodules = GetRequiredSubmodules self
      in andthen (check_git_version env st)
           (\<lambda>_ st1.
              andthen (if force_it self then force_clean env self st1 else (Ret True, st1))
                (\<lambda>cleaned st2.
                   if \<not> cleaned then (Ret None, st2)
                   else if required_submodules \<noteq> [] \<and> length required_submodules > 0
                   then (case special_file self of
                           Some f \<Rightarrow>
                             andthen (SpecialSetup depth env self f required_submodules st2)
                               (\<lambda>r st3. (Ret (Some r), st3))
                         | None \<Rightarrow> standard_setup env self st2)
                   else (Ret (Some 0), st2))))"

section \<open>NuGet download\<close>

definition VERSION :: string where
  "VERSION = ''5.10.0''"

definition URL :: string where
  "URL = ''https://dist.nuget.org/win-x86-commandline/v'' @ VERSION @ ''/nuget.exe''"

definition SHA256 :: string where
  "SHA256 = ''852b71cc8c8c2d40d09ea49d321ff56fd2397b9d6ea9f96e532530307bbbafd3''"

text \<open>
  What \<open>DownloadNuget\<close> takes from outside: \<open>os.path.join\<close>, the directory of the
  module, the network and the hash. \<open>urlopen\<close> either raises or gives a response,
  and reading the response either raises or gives its bytes.
\<close>

record nuget_env =
  os_path_join :: "string \<Rightarrow> string \<Rightarrow> string"
  module_dir :: string
  urlopen :: "string \<Rightarrow> exn + (exn + string)"
  sha256_hexdigest :: "string \<Rightarrow> string"

text \<open>The disk is a map from file names to contents, with the trace of effects.\<close>

record disk =
  files :: "string \<rightharpoonup> string"
  events :: "event list"

definition out_file_name :: "nuget_env \<Rightarrow> string option \<Rightarrow> string" where
  "out_file_name env unpack_folder =
     os_path_join env
       (case unpack_folder of None \<Rightarrow> module_dir env | Some folder \<Rightarrow> folder)
       ''NuGet.exe''"

definition sha256_mismatch :: "string \<Rightarrow> exn" where
  "sha256_mismatch temp_file_sha256 =
     RuntimeError (''Nuget.exe download - sha256 does not match'' @ [CHR 0x0A, CHR 0x09]
                     @ ''downloaded:'' @ [CHR 0x09] @ temp_file_sha256 @ [CHR 0x0A, CHR 0x09])"

text \<open>
  The \<open>try\<close> statement of \<open>DownloadNuget\<close>: the URL is opened, then the file is
  opened for writing (which creates it empty), then the response is read and written.
  An \<open>HTTPError\<close> is logged and raised again; any other exception passes through.
\<close>

definition download :: "nuget_env \<Rightarrow> string \<Rightarrow> disk \<Rightarrow> unit outcome \<times> disk" where
  "download env name d =
     (let d1 = d\<lparr>events := events d @ [UrlOpen URL]\<rparr>;
          failed = (\<lambda>e d'.
            if is_HTTPError e
            then (Raise e,
                  d'\<lparr>events := events d' @ [Log ERROR ''We ran into an issue when getting NuGet'']\<rparr>)
            else (Raise e, d'))
      in case urlopen env URL of
           Inl e \<Rightarrow> failed e d1
         | Inr response \<Rightarrow>
             (let d2 = d1\<lparr>files := (files d1)(name \<mapsto> [])\<rparr>
              in case response of
                   Inl e \<Rightarrow> failed e d2
                 | Inr content \<Rightarrow> (Ret (), d2\<lparr>files := (files d2)(name \<mapsto> content)\<rparr>)))"

definition DownloadNuget ::
  "nuget_env \<Rightarrow> string option \<Rightarrow> disk \<Rightarrow> unit outcome \<times> disk" where
  "DownloadNuget env unpack_folder d =
     (let name = out_file_name env unpack_folder
      in andthen (if files d name = None then download env name d else (Ret (), d))
           (\<lambda>_ d1.
              case files d1 name of
                None \<Rightarrow> (Raise (Exception ''FileNotFoundError''), d1)
              | Some content \<Rightarrow>
                  (let temp_file_sha256 = sha256_hexdigest env content
                   in if lower temp_file_sha256 \<noteq> lower SHA256
                      then (Raise (sha256_mismatch temp_file_sha256),
                            d1\<lparr>files := (files d1)(name := None)\<rparr>)
                      else (Ret (), d1))))"

section \<open>Predicates on traces\<close>

text \<open>
  The events a call added to the trace; whether every command of a list exited with
  status zero; whether the last command of a list is its only failed one.
\<close>

definition new_events :: "'w state \<Rightarrow> 'w state \<Rightarrow> event list" where
  "new_events st st' = drop (length (trace st)) (trace st')"

definition all_ok :: "(call \<times> int) list \<Rightarrow> bool" where
  "all_ok cs = list_all (\<lambda>(c, rc). rc = 0) cs"

definition fail_last :: "(call \<times> int) list \<Rightarrow> bool" where
  "fail_last cs \<longleftrightarrow> cs \<noteq> [] \<and> snd (last cs) \<noteq> 0 \<and> all_ok (butlast cs)"

text \<open>
  \<open>halts_on_failure F st res\<close>: the call that started in \<open>st\<close> and ended with \<open>res\<close>
  only added to the trace, and either all its commands succeeded, or the last one is the
  only one that failed and the outcome satisfies \<open>F\<close>. \<open>adds_no_command F st res\<close>:
  the call added no command, and the outcome satisfies \<open>F\<close>.
\<close>

definition halts_on_failure ::
  "('a outcome \<Rightarrow> bool) \<Rightarrow> 'w state \<Rightarrow> 'a outcome \<times> 'w state \<Rightarrow> bool" where
  "halts_on_failure F st res \<longleftrightarrow>
     (\<exists>new. trace (snd res) = trace st @ new \<and>
        (all_ok (commands new) \<or> fail_last (commands new) \<and> F (fst res)))"

definition adds_no_command ::
  "('a outcome \<Rightarrow> bool) \<Rightarrow> 'w state \<Rightarrow> 'a outcome \<times> 'w state \<Rightarrow> bool" where
  "adds_no_command F st res \<longleftrightarrow>
     (\<exists>new. trace (snd res) = trace st @ new \<and> commands new = [] \<and> F (fst res))"

definition raised_RuntimeError :: "'a outcome \<Rightarrow> bool" where
  "raised_RuntimeError out \<longleftrightarrow> (case out of Raise e \<Rightarrow> is_RuntimeError e | _ \<Rightarrow> False)"

text \<open>
  The commands of special setup: a URL rewrite or the init of one submodule.
  \<open>issues_only P st res\<close>: the call that started in \<open>st\<close> and ended with \<open>res\<close>
  only added to the trace, and every command it issued satisfies \<open>P\<close>.
\<close>

definition special_command :: "call \<Rightarrow> bool" where
  "special_command c \<longleftrightarrow>
     cmd c = ''git'' \<and>
     (prefix ''submodule set-url -- '' (parameters c) \<or>
      prefix ''submodule update --init -- '' (parameters c))"

definition issues_only ::
  "(call \<Rightarrow> bool) \<Rightarrow> 'w state \<Rightarrow> 'a outcome \<times> 'w state \<Rightarrow> bool" where
  "issues_only P st res \<longleftrightarrow>
     (\<exists>new. trace (snd res) = trace st @ new \<and> list_all (\<lambda>(c, rc). P c) (commands new))"

section \<open>An example workspace\<close>

text \<open>
  A workspace \<open>/ws\<close> with two submodules, \<open>Common/Nt\<close> (which has two submodules of
  its own) and \<open>Silicon/Arm\<close>, and a special configuration with one rule. The
  environment is given the parameter strings of the commands that fail, the output of
  the commands that print something, and the paths that exist.
\<close>

definition quoted :: "string \<Rightarrow> string" where
  "quoted s = [CHR 0x22] @ s @ [CHR 0x22]"

definition demo_gitmodules :: "(string \<times> config_section list) list" where
  "demo_gitmodules =
     [(''/ws/.gitmodules'',
       [\<lparr>sec_name = ''submodule '' @ quoted ''Common/Nt'', sec_path = ''Common/Nt'',
         sec_url = ''HTTPS://OLD/Repo.git''\<rparr>,
        \<lparr>sec_name = ''submodule '' @ quoted ''Silicon/Arm'', sec_path = ''Silicon/Arm'',
         sec_url = ''https://host/arm.git''\<rparr>]),
      (''/ws/Common/Nt/.gitmodules'',
       [\<lparr>sec_name = ''submodule '' @ quoted ''ext/lib'', sec_path = ''ext/lib'',
         sec_url = ''https://host/lib.git''\<rparr>,
        \<lparr>sec_name = ''submodule '' @ quoted ''ext/zip'', sec_path = ''ext/zip'',
         sec_url = ''https://host/zip.git''\<rparr>])]"

definition demo_config :: special_config where
  "demo_config =
     \<lparr>url_substitutions =
        [\<lparr>rule_url = ''https://old/repo.git'', rule_sub = ''https://new/repo.git''\<rparr>]\<rparr>"

definition demo_env ::
  "string list \<Rightarrow> (string \<times> string) list \<Rightarrow> string list \<Rightarrow> unit env" where
  "demo_env failing outputs existing =
     \<lparr>run = (\<lambda>w c. (if parameters c \<in> set failing then 1 else 0,
                     case map_of outputs (parameters c) of Some out \<Rightarrow> out | None \<Rightarrow> [],
                     w)),
      run_error = (\<lambda>c rc. RuntimeError (cmd c @ '' failed'')),
      version_compare = (\<lambda>a b. 0),
      path_exists = (\<lambda>w p. p \<in> set existing),
      path_join = (\<lambda>a b. a @ ''/'' @ b),
      normpath = (\<lambda>p. p),
      read_config =
        (\<lambda>w p. Inr (case map_of demo_gitmodules p of Some s \<Rightarrow> s | None \<Rightarrow> [])),
      load_yaml = (\<lambda>w p. Inr demo_config)\<rparr>"

definition demo_self :: invocable where
  "demo_self =
     \<lparr>force_it = False, omnicache_path = None, special_file = None,
      GetRequiredSubmodules =
        [\<lparr>rs_path = ''Common/Nt'', rs_recursive = True\<rparr>,
         \<lparr>rs_path = ''Silicon/Arm'', rs_recursive = False\<rparr>],
      GetWorkspaceRoot = ''/ws''\<rparr>"

definition demo_state :: "unit state" where
  "demo_state = \<lparr>world = (), trace = []\<rparr>"

text \<open>
  The comparison \<open>get_url_substitution_from_list\<close> makes between a URL and a rule:
  equality of the two strings once both are put in lower case.
\<close>

definition url_matches :: "string \<Rightarrow> rule \<Rightarrow> bool" where
  "url_matches url r \<longleftrightarrow> lower url = lower (rule_url r)"

text \<open>
  An example for \<open>DownloadNuget\<close>: the network delivers \<open>payload\<close>, the hash of
  the genuine content is the pinned constant written in upper case, and the disk holds
  one file.
\<close>

definition demo_nuget_env :: nuget_env where
  "demo_nuget_env =
     \<lparr>os_path_join = (\<lambda>a b. a @ ''/'' @ b),
      module_dir = ''/pkg/bin'',
      urlopen = (\<lambda>url. Inr (Inr ''payload'')),
      sha256_hexdigest =
        (\<lambda>content.
           if content = ''nuget 5.10.0''
           then ''852B71CC8C8C2D40D09EA49D321FF56FD2397B9D6EA9F96E532530307BBBAFD3''
           else ''00'')\<rparr>"

definition demo_disk :: "string \<Rightarrow> disk" where
  "demo_disk content = \<lparr>files = map_of [(''/tools/NuGet.exe'', content)], events = []\<rparr>"

section \<open>Traces and sequencing\<close>

lemma commands_append: "commands (a @ b) = commands a @ commands b"
  by (induction a rule: commands.induct) auto

lemma all_ok_Nil: "all_ok []"
  by (simp add: all_ok_def)

lemma all_ok_append: "all_ok (a @ b) \<longleftrightarrow> all_ok a \<and> all_ok b"
  by (simp add: all_ok_def)

lemma fail_last_append: "all_ok a \<Longrightarrow> fail_last b \<Longrightarrow> fail_last (a @ b)"
  by (auto simp: fail_last_def all_ok_def butlast_append)

text \<open>After a failed command that is the only failed one and the last, nothing follows.\<close>

lemma fail_last_decompose:
  assumes "all_ok cs \<or> fail_last cs \<and> P" and "cs = pre @ (c, rc) # rest" and "rc \<noteq> 0"
  shows "rest = [] \<and> P"
proof -
  from assms(2,3) have "\<not> all_ok cs" by (simp add: all_ok_def)
  with assms(1) have fl: "fail_last cs" and P by auto
  have "rest = []"
  proof (rule ccontr)
    assume "rest \<noteq> []"
    then have "butlast cs = pre @ (c, rc) # butlast rest"
      using assms(2) by (simp add: butlast_append)
    with fl assms(3) show False by (simp add: fail_last_def all_ok_def)
  qed
  with \<open>P\<close> show ?thesis by simp
qed

lemma adds_no_command_ret: "F out \<Longrightarrow> adds_no_command F st (out, st)"
  by (simp add: adds_no_command_def)

lemma adds_no_command_log:
  "adds_no_command F st (out, st') \<Longrightarrow> adds_no_command F st (out, logging l m st')"
  by (auto simp: adds_no_command_def logging_def commands_append)

lemma halts_ret: "halts_on_failure F st (out, st)"
  by (simp add: halts_on_failure_def all_ok_Nil)

lemma halts_log_before: "halts_on_failure F (logging l m st) res \<Longrightarrow> halts_on_failure F st res"
  by (auto simp: halts_on_failure_def logging_def commands_append)

lemma halts_RunCmd:
  "halts_on_failure (\<lambda>out. \<exists>rc out'. out = Ret (rc, out') \<and> rc \<noteq> 0) st
     (RunCmd env c False st)"
  by (auto simp: halts_on_failure_def RunCmd_def Let_def all_ok_def fail_last_def
      split: prod.splits)

lemma halts_get_repo_submodules: "halts_on_failure F st (get_repo_submodules env p st)"
  by (auto simp: get_repo_submodules_def halts_ret split: sum.splits)

text \<open>
  Sequencing keeps the shape: when the first part ended with a failed command, the rest
  must add no command; otherwise the rest may run commands of its own.
\<close>

lemma halts_andthen:
  assumes m: "halts_on_failure F1 st m"
    and raise: "\<And>e. F1 (Raise e) \<Longrightarrow> F2 (Raise e)"
    and timeout: "F1 Timeout \<Longrightarrow> F2 Timeout"
    and ok: "\<And>x s. m = (Ret x, s) \<Longrightarrow> \<not> F1 (Ret x) \<Longrightarrow> halts_on_failure F2 s (f x s)"
    and bad: "\<And>x s. m = (Ret x, s) \<Longrightarrow> F1 (Ret x) \<Longrightarrow> adds_no_command F2 s (f x s)"
  shows "halts_on_failure F2 st (andthen m f)"
proof -
  obtain out s where ms: "m = (out, s)" by (cases m)
  from m ms obtain new where new: "trace s = trace st @ new"
    and shape: "all_ok (commands new) \<or> fail_last (commands new) \<and> F1 out"
    by (auto simp: halts_on_failure_def)
  show ?thesis
  proof (cases out)
    case (Ret x)
    show ?thesis
    proof (cases "F1 (Ret x)")
      case True
      with bad ms Ret obtain n2 where n2: "trace (snd (f x s)) = trace s @ n2" "commands n2 = []"
        "F2 (fst (f x s))"
        by (auto simp: adds_no_command_def)
      with new shape Ret ms show ?thesis
        by (auto simp: halts_on_failure_def andthen_def commands_append)
    next
      case False
      with ok ms Ret obtain n2 where n2: "trace (snd (f x s)) = trace s @ n2"
        "all_ok (commands n2) \<or> fail_last (commands n2) \<and> F2 (fst (f x s))"
        by (auto simp: halts_on_failure_def)
      from False shape Ret have "all_ok (commands new)" by auto
      with n2 new Ret ms show ?thesis
        by (auto simp: halts_on_failure_def andthen_def commands_append all_ok_append
            fail_last_append)
    qed
  next
    case (Raise e)
    with new shape ms raise show ?thesis
      by (auto simp: halts_on_failure_def andthen_def)
  next
    case Timeout
    with new shape ms timeout show ?thesis
      by (auto simp: halts_on_failure_def andthen_def)
  qed
qed

lemma halts_except_RuntimeError:
  assumes m: "halts_on_failure F1 st m"
    and F1: "\<And>out. F1 out \<Longrightarrow> \<exists>e. out = Raise e \<and> is_RuntimeError e"
    and h: "\<And>e s. is_RuntimeError e \<Longrightarrow> adds_no_command F2 s (h e s)"
  shows "halts_on_failure F2 st (except_RuntimeError m h)"
proof -
  obtain out s where ms: "m = (out, s)" by (cases m)
  from m ms obtain new where new: "trace s = trace st @ new"
    and shape: "all_ok (commands new) \<or> fail_last (commands new) \<and> F1 out"
    by (auto simp: halts_on_failure_def)
  show ?thesis
  proof (cases "\<exists>e. out = Raise e \<and> is_RuntimeError e")
    case True
    then obtain e where e: "out = Raise e" "is_RuntimeError e" by blast
    from h [OF e(2), of s] obtain n2 where "trace (snd (h e s)) = trace s @ n2"
      "commands n2 = []" "F2 (fst (h e s))"
      by (auto simp: adds_no_command_def)
    with new shape e ms show ?thesis
      by (auto simp: halts_on_failure_def except_RuntimeError_def commands_append)
  next
    case False
    with F1 have "\<not> F1 out" by blast
    with shape have "all_ok (commands new)" by blast
    with new ms False show ?thesis
      by (cases out) (auto simp: halts_on_failure_def except_RuntimeError_def)
  qed
qed

section \<open>The depth budget\<close>

text \<open>
  The budget only cuts the walk short: a call that returns or raises within a budget
  gives the same outcome and the same state with every larger budget.
\<close>

lemma andthen_budget:
  assumes "andthen m f = (out, st')" and "out \<noteq> Timeout"
    and "\<And>x s. m = (Ret x, s) \<Longrightarrow> f x s = (out, st') \<Longrightarrow> g x s = (out, st')"
  shows "andthen m g = (out, st')"
  using assms by (cases m) (auto simp: andthen_def split: outcome.splits)

lemma special_init_budget:
  "special_init_submodule d env root sm cfg rec st = (out, st') \<Longrightarrow> out \<noteq> Timeout \<Longrightarrow>
     special_init_submodule (Suc d) env root sm cfg rec st = (out, st')"
  "special_init_submodules d env root sms cfg rec st = (out, st') \<Longrightarrow> out \<noteq> Timeout \<Longrightarrow>
     special_init_submodules (Suc d) env root sms cfg rec st = (out, st')"
proof (induction d env root sm cfg rec st and d env root sms cfg rec st
    arbitrary: out st' and out st'
    rule: special_init_submodule_special_init_submodules.induct)
  case (1 env root_path submodule_info special_config recursive st)
  then show ?case by simp
next
  case (2 depth env root_path submodule_info special_config recursive st)
  have nested: "special_init_submodules (Suc depth) env
        (normpath env (path_join env root_path (sm_path submodule_info))) subs
        special_config recursive s = (out', s')"
    if "recursive"
      and "special_init_submodules depth env
        (normpath env (path_join env root_path (sm_path submodule_info))) subs
        special_config recursive s = (out', s')"
      and "out' \<noteq> Timeout"
    for subs s out' s'
    using that by (intro "2.IH" [OF refl refl refl, where xaa = True and xac = 0]) simp_all
  from "2.prems" show ?case
    apply (subst special_init_submodule.simps)
    apply (subst (asm) special_init_submodule.simps)
    apply (simp only: Let_def)
    apply (erule andthen_budget, assumption)
    subgoal for url_ok s
      apply (cases url_ok; simp)
      apply (erule andthen_budget, assumption)
      subgoal for x s'
        apply (cases x; simp split: if_splits)
        apply (erule andthen_budget, assumption)
        using nested by simp
      done
    done
next
  case (3 depth env repo_path special_config recursive st)
  then show ?case by simp
next
  case (4 depth env repo_path sm sms special_config recursive st)
  obtain ok_out s where first:
    "special_init_submodule depth env repo_path sm special_config recursive st = (ok_out, s)"
    by (cases "special_init_submodule depth env repo_path sm special_config recursive st")
  with "4.prems" have "ok_out \<noteq> Timeout"
    by (auto simp: andthen_def simp del: special_init_submodule.simps)
  with first have first':
    "special_init_submodule (Suc depth) env repo_path sm special_config recursive st = (ok_out, s)"
    by (rule "4.IH"(1))
  show ?case
  proof (cases ok_out)
    case (Ret ok)
    show ?thesis
    proof (cases ok)
      case True
      with Ret first "4.prems" have
        "special_init_submodules depth env repo_path sms special_config recursive s = (out, st')"
        by (auto simp: andthen_def simp del: special_init_submodule.simps)
      with "4.prems"(2) have
        "special_init_submodules (Suc depth) env repo_path sms special_config recursive s = (out, st')"
        by (intro "4.IH"(2) [of True]) simp_all
      with True Ret first' show ?thesis by (auto simp: andthen_def simp del: special_init_submodule.simps)
    next
      case False
      with Ret first first' "4.prems" show ?thesis by (auto simp: andthen_def simp del: special_init_submodule.simps)
    qed
  next
    case (Raise e)
    with first first' "4.prems" show ?thesis by (auto simp: andthen_def simp del: special_init_submodule.simps)
  next
    case Timeout
    with \<open>ok_out \<noteq> Timeout\<close> show ?thesis by simp
  qed
qed

lemma SpecialSetup_required_budget:
  "SpecialSetup_required d env root sm cfg reqs st = (out, st') \<Longrightarrow> out \<noteq> Timeout \<Longrightarrow>
     SpecialSetup_required (Suc d) env root sm cfg reqs st = (out, st')"
proof (induction reqs arbitrary: st)
  case Nil
  then show ?case by simp
next
  case (Cons req_sm reqs)
  let ?one = "\<lambda>d. if sm_path sm = rs_path req_sm
        then andthen (special_init_submodule d env root sm cfg (rs_recursive req_sm) st)
               (\<lambda>ok st'.
                  if \<not> ok
                  then (Raise (RuntimeError
                          (''failed to init '' @ [CHR 0x27]
                             @ path_join env root (sm_path sm) @ [CHR 0x27])), st')
                  else (Ret (), st'))
        else (Ret (), st)"
  have unfold: "SpecialSetup_required k env root sm cfg (req_sm # reqs) st =
      andthen (?one k) (\<lambda>_ st'. SpecialSetup_required k env root sm cfg reqs st')" for k
    by (simp only: SpecialSetup_required.simps)
  obtain o1 s1 where one: "?one d = (o1, s1)" by (cases "?one d")
  from Cons.prems(1) have run:
    "andthen (o1, s1) (\<lambda>_ st'. SpecialSetup_required d env root sm cfg reqs st') = (out, st')"
    by (simp only: unfold one)
  with Cons.prems(2) have nt: "o1 \<noteq> Timeout" by (auto simp: andthen_def)
  have one': "?one (Suc d) = (o1, s1)"
  proof (cases "sm_path sm = rs_path req_sm")
    case False
    with one show ?thesis by simp
  next
    case True
    let ?k = "\<lambda>ok st'.
        if \<not> ok
        then (Raise (RuntimeError
                (''failed to init '' @ [CHR 0x27]
                   @ path_join env root (sm_path sm) @ [CHR 0x27])), st')
        else (Ret (), st')"
    obtain o0 s0 where init:
      "special_init_submodule d env root sm cfg (rs_recursive req_sm) st = (o0, s0)"
      by (cases "special_init_submodule d env root sm cfg (rs_recursive req_sm) st")
    from one have "andthen (o0, s0) ?k = (o1, s1)"
      by (simp only: if_P [OF True] init)
    moreover from this nt have "o0 \<noteq> Timeout" by (auto simp: andthen_def)
    with init have
      "special_init_submodule (Suc d) env root sm cfg (rs_recursive req_sm) st = (o0, s0)"
      by (rule special_init_budget(1))
    ultimately show ?thesis by (simp only: if_P [OF True])
  qed
  have goal: "SpecialSetup_required (Suc d) env root sm cfg (req_sm # reqs) st =
      andthen (o1, s1) (\<lambda>_ st'. SpecialSetup_required (Suc d) env root sm cfg reqs st')"
    by (simp only: unfold one')
  have "andthen (o1, s1) (\<lambda>_ st'. SpecialSetup_required (Suc d) env root sm cfg reqs st')
      = (out, st')"
  proof (cases o1)
    case (Ret u)
    with run have "SpecialSetup_required d env root sm cfg reqs s1 = (out, st')"
      by (simp add: andthen_def)
    with Cons.prems(2) have "SpecialSetup_required (Suc d) env root sm cfg reqs s1 = (out, st')"
      by (intro Cons.IH)
    with Ret show ?thesis by (simp add: andthen_def)
  next
    case (Raise e)
    with run show ?thesis by (auto simp: andthen_def)
  next
    case Timeout
    with nt show ?thesis by simp
  qed
  with goal show ?case by (simp only:)
qed

lemma SpecialSetup_root_budget:
  "SpecialSetup_root d env root cfg sms reqs st = (out, st') \<Longrightarrow> out \<noteq> Timeout \<Longrightarrow>
     SpecialSetup_root (Suc d) env root cfg sms reqs st = (out, st')"
proof (induction sms arbitrary: st)
  case Nil
  then show ?case by simp
next
  case (Cons sm sms)
  obtain o1 s1 where one: "SpecialSetup_required d env root sm cfg reqs st = (o1, s1)"
    by (cases "SpecialSetup_required d env root sm cfg reqs st")
  with Cons.prems have nt: "o1 \<noteq> Timeout" by (auto simp: andthen_def)
  with one have one': "SpecialSetup_required (Suc d) env root sm cfg reqs st = (o1, s1)"
    by (rule SpecialSetup_required_budget)
  show ?case
  proof (cases o1)
    case (Ret u)
    with one Cons.prems have "SpecialSetup_root d env root cfg sms reqs s1 = (out, st')"
      by (simp add: andthen_def)
    with Cons.prems(2) have "SpecialSetup_root (Suc d) env root cfg sms reqs s1 = (out, st')"
      by (intro Cons.IH)
    with Ret one' show ?thesis by (simp add: andthen_def)
  next
    case (Raise e)
    with one one' Cons.prems show ?thesis by (auto simp: andthen_def)
  next
    case Timeout
    with nt show ?thesis by simp
  qed
qed

lemma SpecialSetup_budget:
  assumes "SpecialSetup d env self path reqs st = (out, st')" and "out \<noteq> Timeout"
  shows "SpecialSetup (Suc d) env self path reqs st = (out, st')"
proof (cases "load_yaml env (world st) path")
  case (Inl e)
  with assms show ?thesis by (auto simp: SpecialSetup_def Let_def logging_def)
next
  case (Inr cfg)
  let ?st1 = "logging PROGRESS (''## Performing a special setup using file: '' @ path) st"
  let ?body = "\<lambda>d. andthen (get_repo_submodules env (GetWorkspaceRoot self) ?st1)
       (\<lambda>root_submodules st2.
          andthen (SpecialSetup_root d env (GetWorkspaceRoot self) cfg root_submodules reqs st2)
            (\<lambda>_ st3. (Ret (0::int), st3)))"
  let ?h = "\<lambda>e st'. (Ret (- 1 :: int),
       logging ERROR (str_exn e) (logging ERROR ''FAILED!\<newline>'' st'))"
  have eq: "SpecialSetup d env self path reqs st = except_RuntimeError (?body d) ?h" for d
    using Inr by (simp add: SpecialSetup_def Let_def logging_def)
  obtain ob sb where body: "?body d = (ob, sb)" by (cases "?body d")
  with assms eq [of d] have nt: "ob \<noteq> Timeout"
    by (auto simp: except_RuntimeError_def)
  have "?body (Suc d) = (ob, sb)"
  proof (cases "get_repo_submodules env (GetWorkspaceRoot self) ?st1")
    case (Pair og sg)
    show ?thesis
    proof (cases og)
      case (Ret subs)
      obtain orr sr where root:
        "SpecialSetup_root d env (GetWorkspaceRoot self) cfg subs reqs sg = (orr, sr)"
        by (cases "SpecialSetup_root d env (GetWorkspaceRoot self) cfg subs reqs sg")
      with body Pair Ret nt have "orr \<noteq> Timeout" by (auto simp: andthen_def)
      with root have
        "SpecialSetup_root (Suc d) env (GetWorkspaceRoot self) cfg subs reqs sg = (orr, sr)"
        by (rule SpecialSetup_root_budget)
      with root body Pair Ret show ?thesis by (simp add: andthen_def)
    next
      case (Raise e)
      with body Pair show ?thesis by (simp add: andthen_def)
    next
      case Timeout
      with body Pair show ?thesis by (simp add: andthen_def)
    qed
  qed
  with body assms eq [of d] eq [of "Suc d"] show ?thesis by simp
qed

section \<open>Special setup stops at the first failed command\<close>

lemma halts_set_url:
  "halts_on_failure (\<lambda>out. out = Ret False) s
     (andthen (RunCmd env c False s)
        (\<lambda>(rc, out) st2.
           if rc \<noteq> 0 then (Ret False, logging l1 m1 (logging l2 m2 (logging l3 m3 st2)))
           else (Ret True, st2)))"
  by (rule halts_andthen [OF halts_RunCmd])
    (auto simp: halts_ret intro!: adds_no_command_log adds_no_command_ret)

text \<open>
  By induction along the calls of the walk: a call of \<open>special_init_submodule\<close> either
  runs successful commands only, or ends right after its first failed command and
  returns \<open>False\<close>.
\<close>

lemma special_init_halts:
  "halts_on_failure (\<lambda>out. out = Ret False) st
     (special_init_submodule d env root sm cfg rec st)"
  "halts_on_failure (\<lambda>out. out = Ret False) st
     (special_init_submodules d env root sms cfg rec st)"
proof (induction d env root sm cfg rec st and d env root sms cfg rec st
    rule: special_init_submodule_special_init_submodules.induct)
  case (1 env root_path submodule_info special_config recursive st)
  show ?case by (simp add: halts_ret)
next
  case (2 depth env root_path submodule_info special_config recursive st)
  let ?F = "\<lambda>out :: bool outcome. out = Ret False"
  let ?repo = "normpath env (path_join env root_path (sm_path submodule_info))"
  have nested: "halts_on_failure ?F s
     (andthen (get_repo_submodules env ?repo s)
        (\<lambda>submodules st5.
           special_init_submodules depth env ?repo submodules special_config recursive st5))"
    if recursive for s
  proof (rule halts_andthen [OF halts_get_repo_submodules [where F = "\<lambda>_. False"]])
    fix subs s''
    show "halts_on_failure ?F s''
       (special_init_submodules depth env ?repo subs special_config recursive s'')"
      by (rule "2.IH" [OF refl refl refl, where xaa = True and xac = 0]) (simp_all add: that)
  qed simp_all
  show ?case
    apply (simp only: special_init_submodule.simps Let_def)
    apply (rule halts_andthen [where ?F1.0 = ?F])
    subgoal
      apply (split option.split)
      apply (intro conjI impI allI)
       apply (rule halts_log_before, rule halts_ret)
      apply (rule halts_log_before, rule halts_set_url)
      done
    subgoal by simp
    subgoal by simp
    subgoal for url_ok s
      apply (cases url_ok; simp)
      apply (rule halts_andthen [OF halts_RunCmd])
      subgoal by simp
      subgoal by simp
      subgoal for x s' using nested [of s'] by (cases x) (auto simp: halts_ret)
      subgoal for x s' by (cases x) (auto intro!: adds_no_command_log adds_no_command_ret)
      done
    subgoal by (auto intro!: adds_no_command_ret)
    done
next
  case (3 depth env repo_path special_config recursive st)
  show ?case by (simp add: halts_ret)
next
  case (4 depth env repo_path sm sms special_config recursive st)
  show ?case
    apply (simp only: special_init_submodules.simps)
    apply (rule halts_andthen [OF "4.IH"(1)])
    using "4.IH"(2) by (auto intro!: adds_no_command_ret)
qed

lemma SpecialSetup_required_halts:
  "halts_on_failure raised_RuntimeError st (SpecialSetup_required d env root sm cfg reqs st)"
proof (induction reqs arbitrary: st)
  case Nil
  show ?case by (simp add: halts_ret)
next
  case (Cons req_sm reqs)
  have one: "halts_on_failure raised_RuntimeError st
     (if sm_path sm = rs_path req_sm
      then andthen (special_init_submodule d env root sm cfg (rs_recursive req_sm) st)
             (\<lambda>ok st'. if \<not> ok then (Raise (RuntimeError msg), st') else (Ret (), st'))
      else (Ret (), st))" for msg
  proof (cases "sm_path sm = rs_path req_sm")
    case True
    have "halts_on_failure raised_RuntimeError st
      (andthen (special_init_submodule d env root sm cfg (rs_recursive req_sm) st)
             (\<lambda>ok st'. if \<not> ok then (Raise (RuntimeError msg), st') else (Ret (), st')))"
      by (rule halts_andthen [OF special_init_halts(1)])
        (auto simp: halts_ret raised_RuntimeError_def intro!: adds_no_command_ret)
    with True show ?thesis by simp
  next
    case False
    then show ?thesis by (simp add: halts_ret)
  qed
  show ?case
    apply (simp only: SpecialSetup_required.simps)
    apply (rule halts_andthen [OF one])
    using Cons.IH by (auto simp: raised_RuntimeError_def)
qed

lemma SpecialSetup_root_halts:
  "halts_on_failure raised_RuntimeError st (SpecialSetup_root d env root cfg sms reqs st)"
proof (induction sms arbitrary: st)
  case Nil
  show ?case by (simp add: halts_ret)
next
  case (Cons sm sms)
  show ?case
    apply (simp only: SpecialSetup_root.simps)
    apply (rule halts_andthen [OF SpecialSetup_required_halts])
    using Cons.IH by (auto simp: raised_RuntimeError_def)
qed

lemma SpecialSetup_halts:
  "halts_on_failure (\<lambda>out. out = Ret (- 1)) st (SpecialSetup d env self path reqs st)"
proof -
  have body: "halts_on_failure raised_RuntimeError s
     (andthen (get_repo_submodules env root s)
        (\<lambda>root_submodules st2.
           andthen (SpecialSetup_root d env root cfg root_submodules reqs st2)
             (\<lambda>_ st3. (Ret (0::int), st3))))" for s root cfg
    apply (rule halts_andthen [OF halts_get_repo_submodules [where F = "\<lambda>_. False"]])
    subgoal by simp
    subgoal by simp
    subgoal
      apply (rule halts_andthen [OF SpecialSetup_root_halts])
      by (auto simp: raised_RuntimeError_def halts_ret)
    subgoal by simp
    done
  show ?thesis
    apply (simp only: SpecialSetup_def Let_def)
    apply (split sum.split)
    apply (intro conjI allI impI)
    subgoal by (rule halts_log_before, rule halts_ret)
    subgoal
      apply (rule halts_log_before)
      apply (rule halts_except_RuntimeError [OF body])
      by (auto simp: raised_RuntimeError_def split: outcome.splits
          intro!: adds_no_command_log adds_no_command_ret)
    done
qed

text \<open>
  Claim C1. In special setup, when the init command of a submodule at any nesting depth
  exits with a nonzero status, no command at all is issued after it: none for the
  submodules nested in it or anywhere deeper, none for the siblings that were still to
  be processed at its level, none for the remaining required submodules. And
  \<open>SpecialSetup\<close> returns the negative status \<open>-1\<close>. The hypothesis reads the
  failed init command off the commands the call issued, whatever the depth at which it
  was issued and whatever the depth budget of the walk.
\<close>

theorem special_setup_failed_init_aborts:
  assumes run: "SpecialSetup depth env self special_config_path required_submodules st = (out, st')"
    and cmds: "commands (new_events st st') = before @ (init_call root_path sm, rc) # after"
    and rc: "rc \<noteq> 0"
  shows "after = [] \<and> out = Ret (- 1)"
proof -
  from SpecialSetup_halts [of st depth env self special_config_path required_submodules] run
  obtain new where new: "trace st' = trace st @ new"
    and shape: "all_ok (commands new) \<or> fail_last (commands new) \<and> out = Ret (- 1)"
    by (auto simp: halts_on_failure_def)
  from new have "new_events st st' = new" by (simp add: new_events_def)
  with cmds have "commands new = before @ (init_call root_path sm, rc) # after" by simp
  from fail_last_decompose [OF shape this rc] show ?thesis .
qed

text \<open>
  In the example workspace the init of \<open>ext/lib\<close>, nested in \<open>Common/Nt\<close>, fails:
  its sibling \<open>ext/zip\<close> and the second required submodule \<open>Silicon/Arm\<close> are never
  touched.
\<close>

theorem special_setup_failed_init_aborts_witness:
  "commands (new_events demo_state
      (snd (SpecialSetup 3 (demo_env [''submodule update --init -- ext/lib''] [] []) demo_self
              ''special.yaml'' (GetRequiredSubmodules demo_self) demo_state)))
     = [(git ''submodule set-url -- Common/Nt https://new/repo.git'' (Some ''/ws''), 0),
        (git ''submodule update --init -- Common/Nt'' (Some ''/ws''), 0)]
       @ (init_call ''/ws/Common/Nt''
            \<lparr>sm_name = ''ext/lib'', sm_path = ''ext/lib'', sm_url = ''https://host/lib.git''\<rparr>, 1)
       # []
   \<and> fst (SpecialSetup 3 (demo_env [''submodule update --init -- ext/lib''] [] []) demo_self
            ''special.yaml'' (GetRequiredSubmodules demo_self) demo_state) = Ret (- 1)"
proof -
  let ?run = "SpecialSetup 3 (demo_env [''submodule update --init -- ext/lib''] [] []) demo_self
                ''special.yaml'' (GetRequiredSubmodules demo_self) demo_state"
  have run: "?run = (fst ?run, snd ?run)" by simp
  have cmds: "commands (new_events demo_state (snd ?run))
     = [(git ''submodule set-url -- Common/Nt https://new/repo.git'' (Some ''/ws''), 0),
        (git ''submodule update --init -- Common/Nt'' (Some ''/ws''), 0)]
       @ (init_call ''/ws/Common/Nt''
            \<lparr>sm_name = ''ext/lib'', sm_path = ''ext/lib'', sm_url = ''https://host/lib.git''\<rparr>, 1)
       # []"
    by code_simp
  have "(1::int) \<noteq> 0" by simp
  from special_setup_failed_init_aborts [OF run cmds this] cmds show ?thesis by simp
qed

section \<open>The URL rewrite comes before the init command\<close>

lemma halts_extends:
  "halts_on_failure F st res \<Longrightarrow> \<exists>new. trace (snd res) = trace st @ new"
  by (auto simp: halts_on_failure_def)

lemma halts_nested:
  "halts_on_failure (\<lambda>out. out = Ret False) s
     (andthen (get_repo_submodules env repo s)
        (\<lambda>submodules st5. special_init_submodules depth env repo submodules cfg rec st5))"
  by (rule halts_andthen [OF halts_get_repo_submodules [where F = "\<lambda>_. False"]])
    (simp_all add: special_init_halts)

lemma new_events_append: "trace st' = trace st @ new \<Longrightarrow> new_events st st' = new"
  by (simp add: new_events_def)

text \<open>What follows the init command of an entry only adds to the trace.\<close>

lemma after_init_extends:
  "\<exists>new. trace (snd
       (if rc \<noteq> 0 then (Ret False, logging l m s)
        else if rec
        then andthen (get_repo_submodules env repo s)
               (\<lambda>submodules st5. special_init_submodules depth env repo submodules cfg rec st5)
        else (Ret True, s))) = trace s @ new"
  using halts_extends [OF halts_nested [of s env repo depth cfg rec]]
  by (auto simp: logging_def)


lemma special_init_rule_failed:
  assumes sub: "get_url_substitution_from_list (sm_url sm) (url_substitutions cfg) = Some u"
    and set_url: "run env (world st) (set_url_call root sm u) = (rc, output, w1)"
    and rc: "rc \<noteq> 0"
  shows "special_init_submodule (Suc depth) env root sm cfg rec st =
           (Ret False,
            st\<lparr>world := w1,
               trace := trace st @
                 [Log PROGRESS (''## Special init of repo '' @ [CHR 0x27]
                     @ normpath env (path_join env root (sm_path sm)) @ [CHR 0x27]),
                  Run (set_url_call root sm u) rc,
                  Log ERROR (''Failed to update url for ''
                     @ normpath env (path_join env root (sm_path sm))),
                  Log ERROR (''-- From: '' @ sm_url sm),
                  Log ERROR (''-- To: '' @ u)]\<rparr>)"
  using sub set_url rc by (simp add: Let_def andthen_def RunCmd_def logging_def)

lemma special_init_rule_ok:
  assumes sub: "get_url_substitution_from_list (sm_url sm) (url_substitutions cfg) = Some u"
    and set_url: "run env (world st) (set_url_call root sm u) = (0, output, w1)"
  shows "\<exists>rc' rest.
           commands (new_events st
             (snd (special_init_submodule (Suc depth) env root sm cfg rec st))) =
           (set_url_call root sm u, 0) # (init_call root sm, rc') # rest"
proof -
  obtain rc' out' w2 where init: "run env w1 (init_call root sm) = (rc', out', w2)"
    by (cases "run env w1 (init_call root sm)")
  let ?repo = "normpath env (path_join env root (sm_path sm))"
  let ?s4 = "st\<lparr>world := w2,
       trace := trace st @
         [Log PROGRESS (''## Special init of repo '' @ [CHR 0x27] @ ?repo @ [CHR 0x27]),
          Run (set_url_call root sm u) 0, Run (init_call root sm) rc']\<rparr>"
  let ?tail = "if rc' \<noteq> 0
        then (Ret False, logging ERROR (''Failed to initialize repo '' @ ?repo) ?s4)
        else if rec
        then andthen (get_repo_submodules env ?repo ?s4)
               (\<lambda>submodules st5. special_init_submodules depth env ?repo submodules cfg rec st5)
        else (Ret True, ?s4)"
  have eq: "special_init_submodule (Suc depth) env root sm cfg rec st = ?tail"
    using sub set_url init
    by (simp add: Let_def andthen_def RunCmd_def logging_def)
  from after_init_extends [of rc' ERROR _ ?s4 rec env ?repo depth cfg]
  obtain new where "trace (snd ?tail) = trace ?s4 @ new" by blast
  then have "commands (new_events st (snd ?tail)) =
      (set_url_call root sm u, 0) # (init_call root sm, rc') # commands new"
    by (simp add: new_events_def commands_append)
  with eq show ?thesis by auto
qed

lemma special_init_no_rule:
  assumes sub: "get_url_substitution_from_list (sm_url sm) (url_substitutions cfg) = None"
  shows "\<exists>rc' rest.
           commands (new_events st
             (snd (special_init_submodule (Suc depth) env root sm cfg rec st))) =
           (init_call root sm, rc') # rest"
proof -
  obtain rc' out' w2 where init: "run env (world st) (init_call root sm) = (rc', out', w2)"
    by (cases "run env (world st) (init_call root sm)")
  let ?repo = "normpath env (path_join env root (sm_path sm))"
  let ?s4 = "st\<lparr>world := w2,
       trace := trace st @
         [Log PROGRESS (''## Special init of repo '' @ [CHR 0x27] @ ?repo @ [CHR 0x27]),
          Run (init_call root sm) rc']\<rparr>"
  let ?tail = "if rc' \<noteq> 0
        then (Ret False, logging ERROR (''Failed to initialize repo '' @ ?repo) ?s4)
        else if rec
        then andthen (get_repo_submodules env ?repo ?s4)
               (\<lambda>submodules st5. special_init_submodules depth env ?repo submodules cfg rec st5)
        else (Ret True, ?s4)"
  have eq: "special_init_submodule (Suc depth) env root sm cfg rec st = ?tail"
    using sub init
    by (simp add: Let_def andthen_def RunCmd_def logging_def)
  from after_init_extends [of rc' ERROR _ ?s4 rec env ?repo depth cfg]
  obtain new where "trace (snd ?tail) = trace ?s4 @ new" by blast
  then have "commands (new_events st (snd ?tail)) = (init_call root sm, rc') # commands new"
    by (simp add: new_events_def commands_append)
  with eq show ?thesis by auto
qed

text \<open>
  Claim C6. In special setup, for a submodule record whose URL matches a substitution
  rule (\<open>get_url_substitution_from_list\<close> finds the replacement \<open>u\<close>), the first
  command of \<open>special_init_submodule\<close> is the URL rewrite (\<open>submodule set-url\<close> for
  the record's name and \<open>u\<close>, run in the containing repository). When it exits with a
  nonzero status the call logs the failure and returns \<open>False\<close>, and the rewrite is
  the only command it has issued: no init command for this entry. When it exits with
  zero, the next command is the init command of the entry.
\<close>

theorem special_init_rewrites_url_first:
  assumes sub: "get_url_substitution_from_list (sm_url sm) (url_substitutions cfg) = Some u"
    and set_url: "run env (world st) (set_url_call root sm u) = (rc, output, w1)"
  shows "if rc \<noteq> 0
         then special_init_submodule (Suc depth) env root sm cfg rec st =
                (Ret False,
                 st\<lparr>world := w1,
                    trace := trace st @
                      [Log PROGRESS (''## Special init of repo '' @ [CHR 0x27]
                          @ normpath env (path_join env root (sm_path sm)) @ [CHR 0x27]),
                       Run (set_url_call root sm u) rc,
                       Log ERROR (''Failed to update url for ''
                          @ normpath env (path_join env root (sm_path sm))),
                       Log ERROR (''-- From: '' @ sm_url sm),
                       Log ERROR (''-- To: '' @ u)]\<rparr>)
         else \<exists>rc' rest.
                commands (new_events st
                  (snd (special_init_submodule (Suc depth) env root sm cfg rec st))) =
                (set_url_call root sm u, 0) # (init_call root sm, rc') # rest"
proof (cases "rc = 0")
  case False
  with special_init_rule_failed [OF sub set_url] show ?thesis by simp
next
  case True
  with special_init_rule_ok [OF sub] set_url show ?thesis by simp
qed

text \<open>
  In the example workspace the URL of \<open>Common/Nt\<close> matches the rule up to case; the
  rewrite is made to fail in the first run and succeeds in the second.
\<close>

theorem special_init_rewrites_url_first_witness:
  "get_url_substitution_from_list ''HTTPS://OLD/Repo.git'' (url_substitutions demo_config)
     = Some ''https://new/repo.git''
   \<and> special_init_submodule (Suc 0)
       (demo_env [''submodule set-url -- Common/Nt https://new/repo.git''] [] []) ''/ws''
       \<lparr>sm_name = ''Common/Nt'', sm_path = ''Common/Nt'', sm_url = ''HTTPS://OLD/Repo.git''\<rparr>
       demo_config True demo_state
     = (Ret False,
        demo_state\<lparr>world := (),
          trace := trace demo_state @
            [Log PROGRESS (''## Special init of repo '' @ [CHR 0x27] @ ''/ws/Common/Nt'' @ [CHR 0x27]),
             Run (git ''submodule set-url -- Common/Nt https://new/repo.git'' (Some ''/ws'')) 1,
             Log ERROR ''Failed to update url for /ws/Common/Nt'',
             Log ERROR ''-- From: HTTPS://OLD/Repo.git'',
             Log ERROR ''-- To: https://new/repo.git'']\<rparr>)
   \<and> commands (new_events demo_state
         (snd (special_init_submodule (Suc 0) (demo_env [] [] []) ''/ws''
                 \<lparr>sm_name = ''Common/Nt'', sm_path = ''Common/Nt'',
                    sm_url = ''HTTPS://OLD/Repo.git''\<rparr>
                 demo_config False demo_state)))
     = [(git ''submodule set-url -- Common/Nt https://new/repo.git'' (Some ''/ws''), 0),
        (git ''submodule update --init -- Common/Nt'' (Some ''/ws''), 0)]"
proof -
  let ?sm = "\<lparr>sm_name = ''Common/Nt'', sm_path = ''Common/Nt'', sm_url = ''HTTPS://OLD/Repo.git''\<rparr>"
  let ?env = "demo_env [''submodule set-url -- Common/Nt https://new/repo.git''] [] []"
  have sub: "get_url_substitution_from_list (sm_url ?sm) (url_substitutions demo_config)
      = Some ''https://new/repo.git''"
    by code_simp
  have set_url: "run ?env (world demo_state) (set_url_call ''/ws'' ?sm ''https://new/repo.git'')
      = (1, [], ())"
    by code_simp
  have call: "set_url_call ''/ws'' ?sm ''https://new/repo.git''
      = git ''submodule set-url -- Common/Nt https://new/repo.git'' (Some ''/ws'')"
    by code_simp
  have paths: "normpath ?env (path_join ?env ''/ws'' ''Common/Nt'') = ''/ws/Common/Nt''"
    by code_simp
  have ok: "commands (new_events demo_state
         (snd (special_init_submodule (Suc 0) (demo_env [] [] []) ''/ws'' ?sm
                 demo_config False demo_state)))
     = [(git ''submodule set-url -- Common/Nt https://new/repo.git'' (Some ''/ws''), 0),
        (git ''submodule update --init -- Common/Nt'' (Some ''/ws''), 0)]"
    by code_simp
  from special_init_rewrites_url_first [OF sub set_url, of 0 True] sub ok
  show ?thesis by (simp add: call paths del: special_init_submodule.simps)
qed

section \<open>Special setup never asks for the dirty state\<close>

lemma special_command_set_url: "special_command (set_url_call root sm u)"
  by (simp add: special_command_def set_url_call_def git_def)

lemma special_command_init: "special_command (init_call root sm)"
  by (simp add: special_command_def init_call_def git_def)

lemma not_special_command_diff: "\<not> special_command (diff_call self rs)"
  by (simp add: special_command_def diff_call_def git_def)

lemma issues_only_ret: "issues_only P st (out, st)"
  by (simp add: issues_only_def)

lemma issues_only_log:
  "issues_only P st (out, st') \<Longrightarrow> issues_only P st (out, logging l m st')"
  by (auto simp: issues_only_def logging_def commands_append)

lemma issues_only_log_before: "issues_only P (logging l m st) res \<Longrightarrow> issues_only P st res"
  by (auto simp: issues_only_def logging_def commands_append)

lemma issues_only_RunCmd: "P c \<Longrightarrow> issues_only P st (RunCmd env c r st)"
  by (auto simp: issues_only_def RunCmd_def Let_def split: prod.splits)

lemma issues_only_get_repo_submodules: "issues_only P st (get_repo_submodules env p st)"
  by (auto simp: get_repo_submodules_def issues_only_ret split: sum.splits)

lemma issues_only_andthen:
  assumes m: "issues_only P st m"
    and f: "\<And>x s. m = (Ret x, s) \<Longrightarrow> issues_only P s (f x s)"
  shows "issues_only P st (andthen m f)"
proof -
  obtain out s where ms: "m = (out, s)" by (cases m)
  from m ms obtain new where new: "trace s = trace st @ new"
    "list_all (\<lambda>(c, rc). P c) (commands new)"
    by (auto simp: issues_only_def)
  show ?thesis
  proof (cases out)
    case (Ret x)
    with f ms obtain n2 where "trace (snd (f x s)) = trace s @ n2"
      "list_all (\<lambda>(c, rc). P c) (commands n2)"
      by (auto simp: issues_only_def)
    with new Ret ms show ?thesis
      by (auto simp: issues_only_def andthen_def commands_append)
  qed (use new ms in \<open>auto simp: issues_only_def andthen_def\<close>)
qed

lemma issues_only_except:
  assumes m: "issues_only P st m"
    and h: "\<And>e s. issues_only P s (h e s)"
  shows "issues_only P st (except_RuntimeError m h)"
proof -
  obtain out s where ms: "m = (out, s)" by (cases m)
  from m ms obtain new where new: "trace s = trace st @ new"
    "list_all (\<lambda>(c, rc). P c) (commands new)"
    by (auto simp: issues_only_def)
  show ?thesis
  proof (cases out)
    case (Raise e)
    from h [of s e] obtain n2 where "trace (snd (h e s)) = trace s @ n2"
      "list_all (\<lambda>(c, rc). P c) (commands n2)"
      by (auto simp: issues_only_def)
    with new Raise ms show ?thesis
      by (auto simp: issues_only_def except_RuntimeError_def commands_append)
  qed (use new ms in \<open>auto simp: issues_only_def except_RuntimeError_def\<close>)
qed

lemma special_init_issues_only:
  "issues_only special_command st (special_init_submodule d env root sm cfg rec st)"
  "issues_only special_command st (special_init_submodules d env root sms cfg rec st)"
proof (induction d env root sm cfg rec st and d env root sms cfg rec st
    rule: special_init_submodule_special_init_submodules.induct)
  case (1 env root_path submodule_info special_config recursive st)
  show ?case by (simp add: issues_only_ret)
next
  case (2 depth env root_path submodule_info special_config recursive st)
  let ?repo = "normpath env (path_join env root_path (sm_path submodule_info))"
  have nested: "issues_only special_command s
     (andthen (get_repo_submodules env ?repo s)
        (\<lambda>submodules st5.
           special_init_submodules depth env ?repo submodules special_config recursive st5))"
    if recursive for s
  proof (rule issues_only_andthen [OF issues_only_get_repo_submodules])
    fix subs s''
    show "issues_only special_command s''
       (special_init_submodules depth env ?repo subs special_config recursive s'')"
      by (rule "2.IH" [OF refl refl refl, where xaa = True and xac = 0]) (simp_all add: that)
  qed
  show ?case
    apply (simp only: special_init_submodule.simps Let_def)
    apply (rule issues_only_andthen)
    subgoal
      apply (split option.split)
      apply (intro conjI impI allI)
       apply (rule issues_only_log_before, rule issues_only_ret)
      apply (rule issues_only_log_before)
      apply (rule issues_only_andthen [OF issues_only_RunCmd [where P = special_command, OF special_command_set_url]])
      subgoal for u x s by (cases x) (auto intro!: issues_only_log issues_only_ret)
      done
    subgoal for url_ok s
      apply (cases url_ok; simp add: issues_only_ret)
      apply (rule issues_only_andthen [OF issues_only_RunCmd [where P = special_command, OF special_command_init]])
      subgoal for x s' using nested [of s']
        by (cases x) (auto intro!: issues_only_log issues_only_ret)
      done
    done
next
  case (3 depth env repo_path special_config recursive st)
  show ?case by (simp add: issues_only_ret)
next
  case (4 depth env repo_path sm sms special_config recursive st)
  show ?case
    apply (simp only: special_init_submodules.simps)
    apply (rule issues_only_andthen [OF "4.IH"(1)])
    using "4.IH"(2) by (auto intro!: issues_only_ret)
qed

lemma SpecialSetup_required_issues_only:
  "issues_only special_command st (SpecialSetup_required d env root sm cfg reqs st)"
proof (induction reqs arbitrary: st)
  case Nil
  show ?case by (simp add: issues_only_ret)
next
  case (Cons req_sm reqs)
  show ?case
    apply (simp only: SpecialSetup_required.simps)
    apply (rule issues_only_andthen)
    subgoal
      apply (split if_split)
      apply (intro conjI impI)
       apply (rule issues_only_andthen [OF special_init_issues_only(1)])
       apply (auto intro!: issues_only_ret)
      done
    subgoal by (rule Cons.IH)
    done
qed

lemma SpecialSetup_root_issues_only:
  "issues_only special_command st (SpecialSetup_root d env root cfg sms reqs st)"
proof (induction sms arbitrary: st)
  case Nil
  show ?case by (simp add: issues_only_ret)
next
  case (Cons sm sms)
  show ?case
    apply (simp only: SpecialSetup_root.simps)
    apply (rule issues_only_andthen [OF SpecialSetup_required_issues_only])
    by (rule Cons.IH)
qed

lemma SpecialSetup_issues_only:
  "issues_only special_command st (SpecialSetup d env self path reqs st)"
  apply (simp only: SpecialSetup_def Let_def)
  apply (split sum.split)
  apply (intro conjI allI impI)
  subgoal by (rule issues_only_log_before, rule issues_only_ret)
  subgoal
    apply (rule issues_only_except)
    subgoal
      apply (rule issues_only_log_before)
      apply (rule issues_only_andthen [OF issues_only_get_repo_submodules])
      apply (rule issues_only_andthen [OF SpecialSetup_root_issues_only])
      by (rule issues_only_ret)
    subgoal by (auto intro!: issues_only_log issues_only_ret)
    done
  done


lemma RunCmd_path_exists: "RunCmd (env\<lparr>path_exists := pe\<rparr>) = RunCmd env"
  by (intro ext) (auto simp: RunCmd_def Let_def split: prod.splits)

lemma get_repo_submodules_path_exists:
  "get_repo_submodules (env\<lparr>path_exists := pe\<rparr>) = get_repo_submodules env"
  by (intro ext) (simp add: get_repo_submodules_def)

lemma special_init_path_exists:
  "special_init_submodule d (env\<lparr>path_exists := pe\<rparr>) root sm cfg rec st =
     special_init_submodule d env root sm cfg rec st"
  "special_init_submodules d (env\<lparr>path_exists := pe\<rparr>) root sms cfg rec st =
     special_init_submodules d env root sms cfg rec st"
proof (induction d env root sm cfg rec st and d env root sms cfg rec st
    rule: special_init_submodule_special_init_submodules.induct)
  case (1 env root_path submodule_info special_config recursive st)
  show ?case by simp
next
  case (2 depth env root_path submodule_info special_config recursive st)
  show ?case
  proof (cases recursive)
    case True
    have "special_init_submodules depth (env\<lparr>path_exists := pe\<rparr>)
            (normpath env (path_join env root_path (sm_path submodule_info))) subs
            special_config True =
          special_init_submodules depth env
            (normpath env (path_join env root_path (sm_path submodule_info))) subs
            special_config True" for subs
      using "2.IH" [OF refl refl refl, where xaa = True and xac = 0] True by (intro ext) simp
    with True show ?thesis
      by (simp add: Let_def RunCmd_path_exists get_repo_submodules_path_exists
          cong: if_cong option.case_cong)
  next
    case False
    then show ?thesis
      by (simp add: Let_def RunCmd_path_exists get_repo_submodules_path_exists
          cong: if_cong option.case_cong)
  qed
next
  case (3 depth env repo_path special_config recursive st)
  show ?case by simp
next
  case (4 depth env repo_path sm sms special_config recursive st)
  have "special_init_submodules depth (env\<lparr>path_exists := pe\<rparr>) repo_path sms
          special_config recursive =
        special_init_submodules depth env repo_path sms special_config recursive"
    using "4.IH"(2) [of True] by (intro ext) simp
  then show ?case
    by (simp add: "4.IH"(1) cong: if_cong)
qed

lemma SpecialSetup_required_path_exists:
  "SpecialSetup_required d (env\<lparr>path_exists := pe\<rparr>) root sm cfg reqs =
     SpecialSetup_required d env root sm cfg reqs"
proof (induction reqs)
  case Nil
  show ?case by (rule ext) simp
next
  case (Cons req_sm reqs)
  show ?case by (rule ext) (simp add: Cons.IH special_init_path_exists cong: if_cong)
qed

lemma SpecialSetup_root_path_exists:
  "SpecialSetup_root d (env\<lparr>path_exists := pe\<rparr>) root cfg sms reqs =
     SpecialSetup_root d env root cfg sms reqs"
proof (induction sms)
  case Nil
  show ?case by (rule ext) simp
next
  case (Cons sm sms)
  show ?case by (rule ext) (simp add: Cons.IH SpecialSetup_required_path_exists)
qed

lemma SpecialSetup_path_exists_force:
  "SpecialSetup d (env\<lparr>path_exists := pe\<rparr>) (self\<lparr>force_it := f\<rparr>) path reqs st =
     SpecialSetup d env self path reqs st"
  by (simp add: SpecialSetup_def Let_def get_repo_submodules_def SpecialSetup_root_path_exists
      cong: sum.case_cong)

lemma special_init_rule_failed_commands:
  assumes sub: "get_url_substitution_from_list (sm_url sm) (url_substitutions cfg) = Some u"
    and set_url: "run env (world st) (set_url_call root sm u) = (rc, output, w1)"
    and rc: "rc \<noteq> 0"
  shows "commands (new_events st (snd (special_init_submodule (Suc depth) env root sm cfg rec st)))
           = [(set_url_call root sm u, rc)]"
  by (simp add: special_init_rule_failed [OF assms] new_events_def
      del: special_init_submodule.simps)

text \<open>
  Claim C10. Special setup performs no dirty-state inspection. Every command that
  \<open>SpecialSetup\<close> issues is a \<open>submodule set-url\<close> or a \<open>submodule update --init\<close>;
  the \<open>diff\<close> query of the standard path is never among them. The run is the same
  whatever the force flag is and whatever \<open>os.path.exists\<close> would answer, so it does
  not depend on what is on disk before a command runs. And every call of
  \<open>special_init_submodule\<close> within the depth budget issues the init command of its
  entry, with one exception: the URL rewrite of that entry failed, and then the rewrite
  is the only command of the call.
\<close>

theorem special_setup_never_inspects_dirty_state:
  "list_all (\<lambda>(c, rc). special_command c)
     (commands (new_events st
        (snd (SpecialSetup depth env self special_config_path required_submodules st))))
   \<and> (\<forall>required_submodule rc.
         (diff_call self required_submodule, rc) \<notin>
           set (commands (new_events st
             (snd (SpecialSetup depth env self special_config_path required_submodules st)))))
   \<and> SpecialSetup depth (env\<lparr>path_exists := exists\<rparr>) (self\<lparr>force_it := force\<rparr>)
         special_config_path required_submodules st =
       SpecialSetup depth env self special_config_path required_submodules st
   \<and> ((\<exists>rc. (init_call root_path submodule_info, rc) \<in>
           set (commands (new_events st
             (snd (special_init_submodule (Suc depth) env root_path submodule_info
                     special_config recursive st)))))
       \<or> (\<exists>u rc. commands (new_events st
             (snd (special_init_submodule (Suc depth) env root_path submodule_info
                     special_config recursive st)))
             = [(set_url_call root_path submodule_info u, rc)] \<and> rc \<noteq> 0))"
proof -
  let ?run = "SpecialSetup depth env self special_config_path required_submodules st"
  from SpecialSetup_issues_only [of st depth env self special_config_path required_submodules]
  obtain new where new: "trace (snd ?run) = trace st @ new"
    and only: "list_all (\<lambda>(c, rc). special_command c) (commands new)"
    by (auto simp: issues_only_def)
  from new have ev: "new_events st (snd ?run) = new" by (rule new_events_append)
  have a: "list_all (\<lambda>(c, rc). special_command c) (commands (new_events st (snd ?run)))"
    using only ev by simp
  have b: "(diff_call self required_submodule, rc) \<notin> set (commands (new_events st (snd ?run)))"
    for required_submodule rc
  proof
    assume "(diff_call self required_submodule, rc) \<in> set (commands (new_events st (snd ?run)))"
    with a have "special_command (diff_call self required_submodule)"
      by (auto simp: list_all_iff)
    then show False by (simp add: not_special_command_diff)
  qed
  let ?cs = "commands (new_events st
     (snd (special_init_submodule (Suc depth) env root_path submodule_info
             special_config recursive st)))"
  have c: "(\<exists>rc. (init_call root_path submodule_info, rc) \<in> set ?cs)
       \<or> (\<exists>u rc. ?cs = [(set_url_call root_path submodule_info u, rc)] \<and> rc \<noteq> 0)"
  proof (cases "get_url_substitution_from_list (sm_url submodule_info)
      (url_substitutions special_config)")
    case None
    from special_init_no_rule [OF None, of st depth env root_path recursive]
    obtain rc' rest where "?cs = (init_call root_path submodule_info, rc') # rest" by blast
    then have "(init_call root_path submodule_info, rc') \<in> set ?cs" by simp
    then show ?thesis by blast
  next
    case (Some u)
    obtain rc out w1 where set_url:
      "run env (world st) (set_url_call root_path submodule_info u) = (rc, out, w1)"
      by (cases "run env (world st) (set_url_call root_path submodule_info u)")
    show ?thesis
    proof (cases "rc = 0")
      case True
      from special_init_rule_ok [OF Some, of env st root_path out w1 depth recursive]
        set_url True
      obtain rc' rest where
        "?cs = (set_url_call root_path submodule_info u, 0)
                 # (init_call root_path submodule_info, rc') # rest"
        by blast
      then have "(init_call root_path submodule_info, rc') \<in> set ?cs" by simp
      then show ?thesis by blast
    next
      case False
      from special_init_rule_failed_commands [OF Some set_url False]
      have "?cs = [(set_url_call root_path submodule_info u, rc)]" .
      with False show ?thesis by blast
    qed
  qed
  from a b c SpecialSetup_path_exists_force show ?thesis by blast
qed

text \<open>
  In the example workspace both required paths exist, \<open>Common/Nt\<close> is dirty and force
  is on: the special walk still initialises every submodule it meets.
\<close>

theorem special_setup_never_inspects_dirty_state_witness:
  "commands (new_events demo_state
      (snd (SpecialSetup 3
              (demo_env [] [(''diff Common/Nt'', ''M file'')] [''/ws/Common/Nt'', ''/ws/Silicon/Arm''])
              (demo_self\<lparr>force_it := True\<rparr>) ''special.yaml''
              (GetRequiredSubmodules demo_self) demo_state)))
     = [(git ''submodule set-url -- Common/Nt https://new/repo.git'' (Some ''/ws''), 0),
        (git ''submodule update --init -- Common/Nt'' (Some ''/ws''), 0),
        (git ''submodule update --init -- ext/lib'' (Some ''/ws/Common/Nt''), 0),
        (git ''submodule update --init -- ext/zip'' (Some ''/ws/Common/Nt''), 0),
        (git ''submodule update --init -- Silicon/Arm'' (Some ''/ws''), 0)]
   \<and> list_all (\<lambda>(c, rc). special_command c)
       [(git ''submodule set-url -- Common/Nt https://new/repo.git'' (Some ''/ws''), 0::int),
        (git ''submodule update --init -- Common/Nt'' (Some ''/ws''), 0),
        (git ''submodule update --init -- ext/lib'' (Some ''/ws/Common/Nt''), 0),
        (git ''submodule update --init -- ext/zip'' (Some ''/ws/Common/Nt''), 0),
        (git ''submodule update --init -- Silicon/Arm'' (Some ''/ws''), 0)]"
proof -
  let ?env = "demo_env [] [(''diff Common/Nt'', ''M file'')] [''/ws/Common/Nt'', ''/ws/Silicon/Arm'']"
  let ?run = "SpecialSetup 3 ?env (demo_self\<lparr>force_it := True\<rparr>) ''special.yaml''
                (GetRequiredSubmodules demo_self) demo_state"
  have cmds: "commands (new_events demo_state (snd ?run))
     = [(git ''submodule set-url -- Common/Nt https://new/repo.git'' (Some ''/ws''), 0),
        (git ''submodule update --init -- Common/Nt'' (Some ''/ws''), 0),
        (git ''submodule update --init -- ext/lib'' (Some ''/ws/Common/Nt''), 0),
        (git ''submodule update --init -- ext/zip'' (Some ''/ws/Common/Nt''), 0),
        (git ''submodule update --init -- Silicon/Arm'' (Some ''/ws''), 0)]"
    by code_simp
  from special_setup_never_inspects_dirty_state
    [of demo_state 3 ?env "demo_self\<lparr>force_it := True\<rparr>" "''special.yaml''"
        "GetRequiredSubmodules demo_self"]
  have "list_all (\<lambda>(c, rc). special_command c) (commands (new_events demo_state (snd ?run)))"
    by (rule conjunct1)
  with cmds show ?thesis by simp
qed

section \<open>URL substitution\<close>

lemma get_url_substitution_filter:
  "get_url_substitution_from_list url R =
     (case filter (url_matches url) R of [] \<Rightarrow> None | r # _ \<Rightarrow> Some (rule_sub r))"
  by (induction R) (auto simp: url_matches_def)

lemma get_url_substitution_skip:
  "\<forall>x \<in> set pre. \<not> url_matches url x \<Longrightarrow>
     get_url_substitution_from_list url (pre @ R) = get_url_substitution_from_list url R"
  by (induction pre) (auto simp: url_matches_def)

text \<open>
  Claim C4. For every URL and every list of rules, in the order of the list:
  \<open>get_url_substitution_from_list\<close> returns the replacement of the first rule whose
  URL equals the given one when both are put in lower case (the rule \<open>r\<close> with no
  matching rule before it), and \<open>None\<close> when no rule matches. The comparison is
  equality of strings: a rule with a wildcard in its URL matches only the URL that is
  spelled the same. The function is a function of its two arguments alone: it takes no
  state and returns none.
\<close>

theorem get_url_substitution_first_match:
  "(\<forall>pre r post.
      R = pre @ r # post \<and> (\<forall>x \<in> set pre. \<not> url_matches url x) \<and> url_matches url r \<longrightarrow>
      get_url_substitution_from_list url R = Some (rule_sub r))
   \<and> ((\<forall>x \<in> set R. \<not> url_matches url x) \<longrightarrow> get_url_substitution_from_list url R = None)"
proof (intro conjI allI impI)
  fix pre r post
  assume "R = pre @ r # post \<and> (\<forall>x \<in> set pre. \<not> url_matches url x) \<and> url_matches url r"
  then show "get_url_substitution_from_list url R = Some (rule_sub r)"
    by (simp add: get_url_substitution_skip) (simp add: url_matches_def)
next
  assume "\<forall>x \<in> set R. \<not> url_matches url x"
  then have "filter (url_matches url) R = []" by (simp add: filter_empty_conv)
  then show "get_url_substitution_from_list url R = None"
    by (simp add: get_url_substitution_filter)
qed

text \<open>
  The second rule matches up to case and wins over the third; the first, written with a
  star, does not match.
\<close>

theorem get_url_substitution_first_match_witness:
  "get_url_substitution_from_list ''https://old/repo.git''
        [\<lparr>rule_url = ''https://old/*'', rule_sub = ''https://star/''\<rparr>,
         \<lparr>rule_url = ''HTTPS://Old/Repo.GIT'', rule_sub = ''https://new/repo.git''\<rparr>,
         \<lparr>rule_url = ''https://old/repo.git'', rule_sub = ''https://later/repo.git''\<rparr>]
       = Some ''https://new/repo.git''
   \<and> get_url_substitution_from_list ''https://old/repo''
        [\<lparr>rule_url = ''https://old/*'', rule_sub = ''https://star/''\<rparr>,
         \<lparr>rule_url = ''HTTPS://Old/Repo.GIT'', rule_sub = ''https://new/repo.git''\<rparr>,
         \<lparr>rule_url = ''https://old/repo.git'', rule_sub = ''https://later/repo.git''\<rparr>]
       = None"
proof -
  let ?a = "\<lparr>rule_url = ''https://old/*'', rule_sub = ''https://star/''\<rparr>"
  let ?b = "\<lparr>rule_url = ''HTTPS://Old/Repo.GIT'', rule_sub = ''https://new/repo.git''\<rparr>"
  let ?c = "\<lparr>rule_url = ''https://old/repo.git'', rule_sub = ''https://later/repo.git''\<rparr>"
  have na: "\<not> url_matches ''https://old/repo.git'' ?a" by code_simp
  have mb: "url_matches ''https://old/repo.git'' ?b" by code_simp
  have n1: "\<not> url_matches ''https://old/repo'' ?a" by code_simp
  have n2: "\<not> url_matches ''https://old/repo'' ?b" by code_simp
  have n3: "\<not> url_matches ''https://old/repo'' ?c" by code_simp
  have "[?a, ?b, ?c] = [?a] @ ?b # [?c] \<and> (\<forall>x \<in> set [?a]. \<not> url_matches ''https://old/repo.git'' x)
      \<and> url_matches ''https://old/repo.git'' ?b"
    using na mb by simp
  then have first: "get_url_substitution_from_list ''https://old/repo.git'' [?a, ?b, ?c]
      = Some (rule_sub ?b)"
    by (rule get_url_substitution_first_match [THEN conjunct1, rule_format])
  have "\<forall>x \<in> set [?a, ?b, ?c]. \<not> url_matches ''https://old/repo'' x"
    using n1 n2 n3 by simp
  then have "get_url_substitution_from_list ''https://old/repo'' [?a, ?b, ?c] = None"
    by (rule get_url_substitution_first_match [THEN conjunct2, THEN mp])
  with first show ?thesis by simp
qed

text \<open>
  Claim C7. Reordering the rules that do not match the URL leaves the matching rules
  where they are among themselves, so the list of matching rules, in order, is the same
  before and after; the result is then the same (first part). Inserting a copy of the
  matching rule that gives the result, at any position of the list, does not change the
  result (second part).
\<close>

theorem get_url_substitution_reorder_duplicate:
  "(filter (url_matches url) R' = filter (url_matches url) R \<longrightarrow>
      get_url_substitution_from_list url R' = get_url_substitution_from_list url R)
   \<and> (R = pre @ r # post \<and> (\<forall>x \<in> set pre. \<not> url_matches url x) \<and> url_matches url r
        \<and> n \<le> length R \<longrightarrow>
      get_url_substitution_from_list url (take n R @ r # drop n R) =
        get_url_substitution_from_list url R)"
proof (intro conjI impI)
  assume "filter (url_matches url) R' = filter (url_matches url) R"
  then show "get_url_substitution_from_list url R' = get_url_substitution_from_list url R"
    by (simp add: get_url_substitution_filter)
next
  assume h: "R = pre @ r # post \<and> (\<forall>x \<in> set pre. \<not> url_matches url x) \<and> url_matches url r
        \<and> n \<le> length R"
  then have f: "filter (url_matches url) R = r # filter (url_matches url) post"
    by (simp add: filter_empty_conv)
  show "get_url_substitution_from_list url (take n R @ r # drop n R) =
        get_url_substitution_from_list url R"
  proof (cases "n \<le> length pre")
    case True
    with h have "take n R = take n pre" by simp
    moreover have "\<forall>x \<in> set (take n pre). \<not> url_matches url x"
      using h by (meson in_set_takeD)
    ultimately have "get_url_substitution_from_list url (take n R @ r # drop n R) =
        get_url_substitution_from_list url (r # drop n R)"
      by (simp add: get_url_substitution_skip)
    also have "\<dots> = Some (rule_sub r)" using h by (simp add: url_matches_def)
    finally show ?thesis using f by (simp add: get_url_substitution_filter)
  next
    case False
    then have "take n R = pre @ r # take (n - Suc (length pre)) post"
      using h by (simp add: take_Cons')
    then have "filter (url_matches url) (take n R @ r # drop n R) =
        r # filter (url_matches url) (take (n - Suc (length pre)) post @ r # drop n R)"
      using h by (simp add: filter_empty_conv)
    with f show ?thesis by (simp add: get_url_substitution_filter)
  qed
qed

text \<open>
  The two rules that do not match are exchanged; the matching rule is repeated at the
  end of the list.
\<close>

theorem get_url_substitution_reorder_duplicate_witness:
  "get_url_substitution_from_list ''https://old/repo.git''
        [\<lparr>rule_url = ''https://other/repo.git'', rule_sub = ''https://mirror/other.git''\<rparr>,
         \<lparr>rule_url = ''HTTPS://Old/Repo.GIT'', rule_sub = ''https://new/repo.git''\<rparr>,
         \<lparr>rule_url = ''https://old/*'', rule_sub = ''https://star/''\<rparr>]
     = get_url_substitution_from_list ''https://old/repo.git''
        [\<lparr>rule_url = ''https://old/*'', rule_sub = ''https://star/''\<rparr>,
         \<lparr>rule_url = ''HTTPS://Old/Repo.GIT'', rule_sub = ''https://new/repo.git''\<rparr>,
         \<lparr>rule_url = ''https://other/repo.git'', rule_sub = ''https://mirror/other.git''\<rparr>]
   \<and> get_url_substitution_from_list ''https://old/repo.git''
        [\<lparr>rule_url = ''https://old/*'', rule_sub = ''https://star/''\<rparr>,
         \<lparr>rule_url = ''HTTPS://Old/Repo.GIT'', rule_sub = ''https://new/repo.git''\<rparr>,
         \<lparr>rule_url = ''https://other/repo.git'', rule_sub = ''https://mirror/other.git''\<rparr>,
         \<lparr>rule_url = ''HTTPS://Old/Repo.GIT'', rule_sub = ''https://new/repo.git''\<rparr>]
     = get_url_substitution_from_list ''https://old/repo.git''
        [\<lparr>rule_url = ''https://old/*'', rule_sub = ''https://star/''\<rparr>,
         \<lparr>rule_url = ''HTTPS://Old/Repo.GIT'', rule_sub = ''https://new/repo.git''\<rparr>,
         \<lparr>rule_url = ''https://other/repo.git'', rule_sub = ''https://mirror/other.git''\<rparr>]
   \<and> get_url_substitution_from_list ''https://old/repo.git''
        [\<lparr>rule_url = ''https://old/*'', rule_sub = ''https://star/''\<rparr>,
         \<lparr>rule_url = ''HTTPS://Old/Repo.GIT'', rule_sub = ''https://new/repo.git''\<rparr>,
         \<lparr>rule_url = ''https://other/repo.git'', rule_sub = ''https://mirror/other.git''\<rparr>]
     = Some ''https://new/repo.git''"
proof -
  let ?u = "''https://old/repo.git''"
  let ?a = "\<lparr>rule_url = ''https://old/*'', rule_sub = ''https://star/''\<rparr>"
  let ?b = "\<lparr>rule_url = ''HTTPS://Old/Repo.GIT'', rule_sub = ''https://new/repo.git''\<rparr>"
  let ?c = "\<lparr>rule_url = ''https://other/repo.git'', rule_sub = ''https://mirror/other.git''\<rparr>"
  have na: "\<not> url_matches ?u ?a" by code_simp
  have mb: "url_matches ?u ?b" by code_simp
  have nc: "\<not> url_matches ?u ?c" by code_simp
  have "filter (url_matches ?u) [?c, ?b, ?a] = filter (url_matches ?u) [?a, ?b, ?c]"
    using na mb nc by simp
  then have reorder: "get_url_substitution_from_list ?u [?c, ?b, ?a] =
      get_url_substitution_from_list ?u [?a, ?b, ?c]"
    by (rule get_url_substitution_reorder_duplicate [THEN conjunct1, THEN mp])
  have "[?a, ?b, ?c] = [?a] @ ?b # [?c] \<and> (\<forall>x \<in> set [?a]. \<not> url_matches ?u x)
      \<and> url_matches ?u ?b \<and> 3 \<le> length [?a, ?b, ?c]"
    using na mb by simp
  then have "get_url_substitution_from_list ?u (take 3 [?a, ?b, ?c] @ ?b # drop 3 [?a, ?b, ?c]) =
      get_url_substitution_from_list ?u [?a, ?b, ?c]"
    by (rule get_url_substitution_reorder_duplicate [THEN conjunct2, THEN mp])
  then have duplicate: "get_url_substitution_from_list ?u [?a, ?b, ?c, ?b] =
      get_url_substitution_from_list ?u [?a, ?b, ?c]"
    by simp
  have "get_url_substitution_from_list ?u [?a, ?b, ?c] = Some ''https://new/repo.git''"
    by code_simp
  with reorder duplicate show ?thesis by simp
qed

section \<open>Standard setup\<close>

text \<open>
  Without a special configuration file and with at least one required submodule, \<open>Go\<close>
  checks git, cleans when forced, and then runs \<open>standard_setup\<close>, whose result it
  returns.
\<close>

lemma Go_standard_setup:
  assumes "special_file self = None" and "GetRequiredSubmodules self \<noteq> []"
  shows "Go depth env self st =
     andthen (check_git_version env st)
       (\<lambda>_ st1.
          andthen (if force_it self then force_clean env self st1 else (Ret True, st1))
            (\<lambda>cleaned st2. if \<not> cleaned then (Ret None, st2) else standard_setup env self st2))"
  using assms by (simp add: Go_def Let_def cong: if_cong)

text \<open>
  Claim C3. In standard setup the first command is one \<open>submodule sync\<close> for all the
  required paths together. When it exits with a nonzero status the operation ends there:
  \<open>RunCmd\<close> raises, and either the handler logs the failure and \<open>Go\<close> returns
  (with \<open>None\<close>), or the exception is not a \<open>RuntimeError\<close> and leaves \<open>Go\<close>. In
  both cases the sync is the only command issued: no fetch and no dirty query is
  attempted for any required submodule.
\<close>

theorem sync_failure_aborts:
  assumes sync: "run env (world st) (sync_call self) = (rc, output, w')"
    and rc: "rc \<noteq> 0"
  shows "standard_setup env self st =
     (if is_RuntimeError (run_error env (sync_call self) rc)
      then (Ret None,
            st\<lparr>world := w',
               trace := trace st @
                 [Log PROGRESS (''## Syncing Git repositories: ''
                     @ join_str '' '' (map rs_path (GetRequiredSubmodules self)) @ ''...''),
                  Run (sync_call self) rc,
                  Log ERROR ''FAILED!\<newline>'',
                  Log ERROR ''Error while trying to synchronize the environment!'',
                  Log ERROR (str_exn (run_error env (sync_call self) rc))]\<rparr>)
      else (Raise (run_error env (sync_call self) rc),
            st\<lparr>world := w',
               trace := trace st @
                 [Log PROGRESS (''## Syncing Git repositories: ''
                     @ join_str '' '' (map rs_path (GetRequiredSubmodules self)) @ ''...''),
                  Run (sync_call self) rc]\<rparr>))
   \<and> commands (new_events st (snd (standard_setup env self st))) = [(sync_call self, rc)]
   \<and> sync_call self =
       git (''submodule sync -- '' @ join_str '' '' (map rs_path (GetRequiredSubmodules self)))
         (Some (GetWorkspaceRoot self))"
  using sync rc
  by (simp add: standard_setup_def sync_repos_def Let_def andthen_def except_RuntimeError_def
      RunCmd_def logging_def new_events_def sync_call_def)

text \<open>
  In the example workspace the sync command fails.
\<close>

theorem sync_failure_aborts_witness:
  "run (demo_env [''submodule sync -- Common/Nt Silicon/Arm''] [] []) (world demo_state)
       (sync_call demo_self) = (1, [], ())
   \<and> standard_setup (demo_env [''submodule sync -- Common/Nt Silicon/Arm''] [] []) demo_self
       demo_state =
       (Ret None,
        demo_state\<lparr>world := (),
          trace := trace demo_state @
            [Log PROGRESS ''## Syncing Git repositories: Common/Nt Silicon/Arm...'',
             Run (git ''submodule sync -- Common/Nt Silicon/Arm'' (Some ''/ws'')) 1,
             Log ERROR ''FAILED!\<newline>'',
             Log ERROR ''Error while trying to synchronize the environment!'',
             Log ERROR ''git failed'']\<rparr>)"
proof -
  let ?env = "demo_env [''submodule sync -- Common/Nt Silicon/Arm''] [] []"
  have sync: "run ?env (world demo_state) (sync_call demo_self) = (1, [], ())"
    by code_simp
  have rc: "(1::int) \<noteq> 0" by simp
  have call: "sync_call demo_self = git ''submodule sync -- Common/Nt Silicon/Arm'' (Some ''/ws'')"
    by code_simp
  have paths: "join_str '' '' (map rs_path (GetRequiredSubmodules demo_self))
      = ''Common/Nt Silicon/Arm''"
    by code_simp
  have err: "run_error ?env (git ''submodule sync -- Common/Nt Silicon/Arm'' (Some ''/ws'')) 1
      = RuntimeError ''git failed''"
    by code_simp
  from sync_failure_aborts [OF sync rc, THEN conjunct1] sync
  show ?thesis by (simp add: call paths err)
qed

text \<open>
  Claim C8. In standard setup, when the path of a required submodule exists, force is
  off, and the dirty-state query (\<open>git diff\<close> of the path) exits with a nonzero status,
  \<open>RunCmd\<close> raises inside the \<open>try\<close> statement of that submodule: the failure is an
  error of this iteration, not an answer "clean". The only command of the iteration is
  the query; no update command is issued for the submodule. A \<open>RuntimeError\<close> is
  logged by the handler of the iteration; any other exception leaves the loop.
\<close>

theorem failed_dirty_query_is_an_error:
  assumes exists: "path_exists env (world st)
        (normpath env (path_join env (GetWorkspaceRoot self) (rs_path required_submodule)))"
    and force: "\<not> force_it self"
    and diff: "run env (world st) (diff_call self required_submodule) = (rc, output, w')"
    and rc: "rc \<noteq> 0"
  shows "fetch_repo env self required_submodule st =
     (Raise (run_error env (diff_call self required_submodule) rc),
      st\<lparr>world := w',
         trace := trace st @
           [Log PROGRESS (''## Checking Git repository: '' @ rs_path required_submodule @ ''...''),
            Run (diff_call self required_submodule) rc]\<rparr>)
   \<and> fetch_repo_try env self required_submodule st =
     (if is_RuntimeError (run_error env (diff_call self required_submodule) rc)
      then (Ret (),
            st\<lparr>world := w',
               trace := trace st @
                 [Log PROGRESS (''## Checking Git repository: '' @ rs_path required_submodule @ ''...''),
                  Run (diff_call self required_submodule) rc,
                  Log ERROR ''FAILED!\<newline>'',
                  Log ERROR ''Failed to fetch required repository!\<newline>'',
                  Log ERROR (str_exn (run_error env (diff_call self required_submodule) rc))]\<rparr>)
      else (Raise (run_error env (diff_call self required_submodule) rc),
            st\<lparr>world := w',
               trace := trace st @
                 [Log PROGRESS (''## Checking Git repository: '' @ rs_path required_submodule @ ''...''),
                  Run (diff_call self required_submodule) rc]\<rparr>))
   \<and> commands (new_events st (snd (fetch_repo_try env self required_submodule st)))
       = [(diff_call self required_submodule, rc)]"
  using exists force diff rc
  by (simp add: fetch_repo_try_def fetch_repo_def check_skip_def Let_def andthen_def
      except_RuntimeError_def RunCmd_def logging_def new_events_def)

text \<open>
  In the example workspace \<open>Silicon/Arm\<close> exists and its dirty query fails.
\<close>

theorem failed_dirty_query_is_an_error_witness:
  "path_exists (demo_env [''diff Silicon/Arm''] [] [''/ws/Silicon/Arm'']) (world demo_state)
     (normpath (demo_env [''diff Silicon/Arm''] [] [''/ws/Silicon/Arm''])
        (path_join (demo_env [''diff Silicon/Arm''] [] [''/ws/Silicon/Arm''])
           (GetWorkspaceRoot demo_self)
           (rs_path \<lparr>rs_path = ''Silicon/Arm'', rs_recursive = False\<rparr>)))
   \<and> \<not> force_it demo_self
   \<and> run (demo_env [''diff Silicon/Arm''] [] [''/ws/Silicon/Arm'']) (world demo_state)
       (diff_call demo_self \<lparr>rs_path = ''Silicon/Arm'', rs_recursive = False\<rparr>) = (1, [], ())
   \<and> commands (new_events demo_state
        (snd (fetch_repo_try (demo_env [''diff Silicon/Arm''] [] [''/ws/Silicon/Arm''])
                demo_self \<lparr>rs_path = ''Silicon/Arm'', rs_recursive = False\<rparr> demo_state)))
       = [(git ''diff Silicon/Arm'' (Some ''/ws''), 1)]"
proof -
  let ?env = "demo_env [''diff Silicon/Arm''] [] [''/ws/Silicon/Arm'']"
  let ?rs = "\<lparr>rs_path = ''Silicon/Arm'', rs_recursive = False\<rparr>"
  have exists: "path_exists ?env (world demo_state)
      (normpath ?env (path_join ?env (GetWorkspaceRoot demo_self) (rs_path ?rs)))"
    by code_simp
  have force: "\<not> force_it demo_self" by code_simp
  have diff: "run ?env (world demo_state) (diff_call demo_self ?rs) = (1, [], ())"
    by code_simp
  have rc: "(1::int) \<noteq> 0" by simp
  have call: "diff_call demo_self ?rs = git ''diff Silicon/Arm'' (Some ''/ws'')"
    by code_simp
  from failed_dirty_query_is_an_error [OF exists force diff rc, THEN conjunct2, THEN conjunct2]
  have "commands (new_events demo_state (snd (fetch_repo_try ?env demo_self ?rs demo_state)))
      = [(git ''diff Silicon/Arm'' (Some ''/ws''), 1)]"
    by (simp only: call)
  with exists force diff show ?thesis by (simp only: simp_thms)
qed

text \<open>
  Claim C2, as amended. In standard setup, when the path of a required submodule exists,
  force is off, and the dirty-state query exits with status zero and prints something
  other than white space, the submodule is skipped: the iteration logs the skip, issues
  no update command, returns normally, and the loop goes on with the next required
  submodule. The output is stripped before it is compared with the empty string, so
  output that is white space only counts as clean (the counterexample below).
\<close>

theorem dirty_submodule_is_skipped:
  assumes exists: "path_exists env (world st)
        (normpath env (path_join env (GetWorkspaceRoot self) (rs_path required_submodule)))"
    and force: "\<not> force_it self"
    and diff: "run env (world st) (diff_call self required_submodule) = (0, output, w')"
    and dirty: "strip output \<noteq> []"
  shows "fetch_repo_try env self required_submodule st =
     (Ret (),
      st\<lparr>world := w',
         trace := trace st @
           [Log PROGRESS (''## Checking Git repository: '' @ rs_path required_submodule @ ''...''),
            Run (diff_call self required_submodule) 0,
            Log INFO ''-- NOTE: Repo currently exists and appears to have local changes!'',
            Log INFO ''-- Skipping fetch!'',
            Log PROGRESS ''Done.\<newline>'']\<rparr>)
   \<and> fetch_repos env self (required_submodule # rest) st =
       fetch_repos env self rest
         (st\<lparr>world := w',
             trace := trace st @
               [Log PROGRESS (''## Checking Git repository: '' @ rs_path required_submodule @ ''...''),
                Run (diff_call self required_submodule) 0,
                Log INFO ''-- NOTE: Repo currently exists and appears to have local changes!'',
                Log INFO ''-- Skipping fetch!'',
                Log PROGRESS ''Done.\<newline>'']\<rparr>)"
  using exists force diff dirty
  by (simp add: fetch_repo_try_def fetch_repo_def check_skip_def Let_def andthen_def
      except_RuntimeError_def RunCmd_def logging_def)

text \<open>
  In the example workspace \<open>Silicon/Arm\<close> exists and its dirty query prints a diff.
\<close>

theorem dirty_submodule_is_skipped_witness:
  "path_exists (demo_env [] [(''diff Silicon/Arm'', ''diff --git a/x b/x'')] [''/ws/Silicon/Arm''])
     (world demo_state)
     (normpath (demo_env [] [(''diff Silicon/Arm'', ''diff --git a/x b/x'')] [''/ws/Silicon/Arm''])
        (path_join (demo_env [] [(''diff Silicon/Arm'', ''diff --git a/x b/x'')] [''/ws/Silicon/Arm''])
           (GetWorkspaceRoot demo_self)
           (rs_path \<lparr>rs_path = ''Silicon/Arm'', rs_recursive = False\<rparr>)))
   \<and> \<not> force_it demo_self
   \<and> run (demo_env [] [(''diff Silicon/Arm'', ''diff --git a/x b/x'')] [''/ws/Silicon/Arm''])
       (world demo_state)
       (diff_call demo_self \<lparr>rs_path = ''Silicon/Arm'', rs_recursive = False\<rparr>)
       = (0, ''diff --git a/x b/x'', ())
   \<and> strip ''diff --git a/x b/x'' \<noteq> []
   \<and> fetch_repo_try (demo_env [] [(''diff Silicon/Arm'', ''diff --git a/x b/x'')] [''/ws/Silicon/Arm''])
       demo_self \<lparr>rs_path = ''Silicon/Arm'', rs_recursive = False\<rparr> demo_state =
       (Ret (),
        demo_state\<lparr>world := (),
          trace := trace demo_state @
            [Log PROGRESS ''## Checking Git repository: Silicon/Arm...'',
             Run (git ''diff Silicon/Arm'' (Some ''/ws'')) 0,
             Log INFO ''-- NOTE: Repo currently exists and appears to have local changes!'',
             Log INFO ''-- Skipping fetch!'',
             Log PROGRESS ''Done.\<newline>'']\<rparr>)"
proof -
  let ?env = "demo_env [] [(''diff Silicon/Arm'', ''diff --git a/x b/x'')] [''/ws/Silicon/Arm'']"
  let ?rs = "\<lparr>rs_path = ''Silicon/Arm'', rs_recursive = False\<rparr>"
  have exists: "path_exists ?env (world demo_state)
      (normpath ?env (path_join ?env (GetWorkspaceRoot demo_self) (rs_path ?rs)))"
    by code_simp
  have force: "\<not> force_it demo_self" by code_simp
  have diff: "run ?env (world demo_state) (diff_call demo_self ?rs)
      = (0, ''diff --git a/x b/x'', ())"
    by code_simp
  have dirty: "strip ''diff --git a/x b/x'' \<noteq> []" by code_simp
  have call: "diff_call demo_self ?rs = git ''diff Silicon/Arm'' (Some ''/ws'')"
    by code_simp
  from dirty_submodule_is_skipped [OF exists force diff dirty, THEN conjunct1]
  have "fetch_repo_try ?env demo_self ?rs demo_state =
       (Ret (),
        demo_state\<lparr>world := (),
          trace := trace demo_state @
            [Log PROGRESS ''## Checking Git repository: Silicon/Arm...'',
             Run (git ''diff Silicon/Arm'' (Some ''/ws'')) 0,
             Log INFO ''-- NOTE: Repo currently exists and appears to have local changes!'',
             Log INFO ''-- Skipping fetch!'',
             Log PROGRESS ''Done.\<newline>'']\<rparr>)"
    by (simp add: call)
  with exists force diff dirty show ?thesis by (simp only: simp_thms)
qed

text \<open>
  The claim as stated fails for output that is not empty but blank: the path exists,
  force is off, the dirty query prints a single newline, and the update command is
  issued all the same.
\<close>

theorem dirty_query_blank_output_counterexample:
  "path_exists (demo_env [] [(''diff Silicon/Arm'', [CHR 0x0A])] [''/ws/Silicon/Arm''])
     (world demo_state)
     (normpath (demo_env [] [(''diff Silicon/Arm'', [CHR 0x0A])] [''/ws/Silicon/Arm''])
        (path_join (demo_env [] [(''diff Silicon/Arm'', [CHR 0x0A])] [''/ws/Silicon/Arm''])
           (GetWorkspaceRoot demo_self)
           (rs_path \<lparr>rs_path = ''Silicon/Arm'', rs_recursive = False\<rparr>)))
   \<and> \<not> force_it demo_self
   \<and> run (demo_env [] [(''diff Silicon/Arm'', [CHR 0x0A])] [''/ws/Silicon/Arm''])
       (world demo_state)
       (diff_call demo_self \<lparr>rs_path = ''Silicon/Arm'', rs_recursive = False\<rparr>)
       = (0, [CHR 0x0A], ())
   \<and> [CHR 0x0A] \<noteq> ([] :: string)
   \<and> commands (new_events demo_state
        (snd (fetch_repo_try (demo_env [] [(''diff Silicon/Arm'', [CHR 0x0A])] [''/ws/Silicon/Arm''])
                demo_self \<lparr>rs_path = ''Silicon/Arm'', rs_recursive = False\<rparr> demo_state)))
       = [(diff_call demo_self \<lparr>rs_path = ''Silicon/Arm'', rs_recursive = False\<rparr>, 0),
          (update_call demo_self \<lparr>rs_path = ''Silicon/Arm'', rs_recursive = False\<rparr>, 0)]"
  by code_simp

text \<open>
  An update command is never mistaken for another command of the standard path; an
  iteration of the loop either returns or raises something that is not a
  \<open>RuntimeError\<close>, and so does the loop.
\<close>

lemma diff_call_neq_update_call: "diff_call self rs \<noteq> update_call self rs'"
  by (simp add: diff_call_def update_call_def git_def)

lemma sync_call_neq_update_call: "sync_call self \<noteq> update_call self rs'"
  by (simp add: sync_call_def update_call_def git_def)

lemma failed_update_in_iteration:
  assumes run: "fetch_repo_try env self rs st = (out, st')"
    and failed: "(update_call self rs, rc) \<in> set (commands (new_events st st'))"
    and rc: "rc \<noteq> 0"
  shows "out = Ret () \<and>
     (\<exists>before. new_events st st' =
        before @
        [Run (update_call self rs) rc,
         Log ERROR (''Failed to fetch '' @ rs_path rs),
         Log ERROR ''FAILED!\<newline>'',
         Log ERROR ''Failed to fetch required repository!\<newline>'',
         Log ERROR ''Unable to checkout repo due to error''])"
  using run failed rc diff_call_neq_update_call [of self rs rs]
  by (auto simp: fetch_repo_try_def fetch_repo_def check_skip_def Let_def andthen_def
      except_RuntimeError_def RunCmd_def logging_def new_events_def
      split: prod.splits if_splits)


lemma fetch_repo_try_outcome:
  "fst (fetch_repo_try env self rs st) = Ret () \<or>
   (\<exists>e. fst (fetch_repo_try env self rs st) = Raise e \<and> \<not> is_RuntimeError e)"
  by (auto simp: fetch_repo_try_def fetch_repo_def check_skip_def Let_def andthen_def
      except_RuntimeError_def RunCmd_def split: prod.splits if_splits)

lemma fetch_repos_outcome:
  "fst (fetch_repos env self rss st) = Ret () \<or>
   (\<exists>e. fst (fetch_repos env self rss st) = Raise e \<and> \<not> is_RuntimeError e)"
proof (induction rss arbitrary: st)
  case Nil
  show ?case by simp
next
  case (Cons rs rss)
  obtain out s where it: "fetch_repo_try env self rs st = (out, s)"
    by (cases "fetch_repo_try env self rs st")
  from fetch_repo_try_outcome [of env self rs st] it
  consider "out = Ret ()" | e where "out = Raise e" "\<not> is_RuntimeError e" by auto
  then show ?case
  proof cases
    case 1
    with it Cons.IH [of s] show ?thesis by (simp add: andthen_def)
  next
    case 2
    with it show ?thesis by (simp add: andthen_def)
  qed
qed

lemma standard_setup_sync_failed:
  assumes sync: "run env (world st) (sync_call self) = (rc, output, w')"
    and rc: "rc \<noteq> 0"
  shows "standard_setup env self st =
     (if is_RuntimeError (run_error env (sync_call self) rc)
      then (Ret None,
            st\<lparr>world := w',
               trace := trace st @
                 [Log PROGRESS (''## Syncing Git repositories: ''
                     @ join_str '' '' (map rs_path (GetRequiredSubmodules self)) @ ''...''),
                  Run (sync_call self) rc,
                  Log ERROR ''FAILED!\<newline>'',
                  Log ERROR ''Error while trying to synchronize the environment!'',
                  Log ERROR (str_exn (run_error env (sync_call self) rc))]\<rparr>)
      else (Raise (run_error env (sync_call self) rc),
            st\<lparr>world := w',
               trace := trace st @
                 [Log PROGRESS (''## Syncing Git repositories: ''
                     @ join_str '' '' (map rs_path (GetRequiredSubmodules self)) @ ''...''),
                  Run (sync_call self) rc]\<rparr>))"
  using sync rc
  by (simp add: standard_setup_def sync_repos_def Let_def andthen_def except_RuntimeError_def
      RunCmd_def logging_def)

lemma standard_setup_sync_ok:
  assumes sync: "run env (world st) (sync_call self) = (0, output, w')"
  shows "standard_setup env self st =
     andthen
       (fetch_repos env self (GetRequiredSubmodules self)
          (st\<lparr>world := w',
              trace := trace st @
                [Log PROGRESS (''## Syncing Git repositories: ''
                    @ join_str '' '' (map rs_path (GetRequiredSubmodules self)) @ ''...''),
                 Run (sync_call self) 0,
                 Log PROGRESS ''Done.\<newline>'']\<rparr>))
       (\<lambda>_ st2. (Ret (Some 0), st2))"
  using sync
  by (simp add: standard_setup_def sync_repos_def Let_def andthen_def except_RuntimeError_def
      RunCmd_def logging_def)

lemma standard_setup_status:
  assumes run: "standard_setup env self st = (out, st')"
    and failed: "(update_call self rs, rc) \<in> set (commands (new_events st st'))"
  shows "out = Ret (Some 0) \<or> (\<exists>e. out = Raise e \<and> \<not> is_RuntimeError e)"
proof -
  obtain src outp w' where sync: "run env (world st) (sync_call self) = (src, outp, w')"
    by (cases "run env (world st) (sync_call self)")
  show ?thesis
  proof (cases "src = 0")
    case True
    with standard_setup_sync_ok [of env st self outp w'] sync
    obtain s where eq: "standard_setup env self st =
        andthen (fetch_repos env self (GetRequiredSubmodules self) s)
          (\<lambda>_ st2. (Ret (Some 0), st2))"
      by auto
    obtain fout fs where f: "fetch_repos env self (GetRequiredSubmodules self) s = (fout, fs)"
      by (cases "fetch_repos env self (GetRequiredSubmodules self) s")
    from fetch_repos_outcome [of env self "GetRequiredSubmodules self" s] f
    have "fout = Ret () \<or> (\<exists>e. fout = Raise e \<and> \<not> is_RuntimeError e)" by simp
    with eq f run show ?thesis by (auto simp: andthen_def)
  next
    case False
    note st = standard_setup_sync_failed [OF sync False]
    show ?thesis
    proof (cases "is_RuntimeError (run_error env (sync_call self) src)")
      case True
      with st run have "commands (new_events st st') = [(sync_call self, src)]"
        by (auto simp: new_events_def)
      with failed sync_call_neq_update_call [of self rs] show ?thesis by simp
    next
      case False
      with st run show ?thesis by auto
    qed
  qed
qed

text \<open>
  Claim C5. In standard setup, when the update command of a required submodule exits
  with a nonzero status, the failure is logged (\<open>Failed to fetch\<close> and the three
  records of the handler), the iteration returns normally without any further command
  for that submodule, and the loop goes on with the remaining required submodules from
  the state the iteration left. The status of the whole operation is not changed by the
  failure: a run of \<open>standard_setup\<close> in which an update command failed returns
  \<open>0\<close>, unless an exception that is not a \<open>RuntimeError\<close> leaves it (which only a
  command run with \<open>raise_exception_on_nonzero\<close> can cause, never the update).
\<close>

theorem failed_update_is_not_fatal:
  "(fetch_repo_try env self required_submodule st = (out, st')
      \<and> (update_call self required_submodule, rc) \<in> set (commands (new_events st st'))
      \<and> rc \<noteq> 0 \<longrightarrow>
    out = Ret ()
    \<and> (\<exists>before. new_events st st' =
          before @
          [Run (update_call self required_submodule) rc,
           Log ERROR (''Failed to fetch '' @ rs_path required_submodule),
           Log ERROR ''FAILED!\<newline>'',
           Log ERROR ''Failed to fetch required repository!\<newline>'',
           Log ERROR ''Unable to checkout repo due to error''])
    \<and> fetch_repos env self (required_submodule # rest) st = fetch_repos env self rest st')
   \<and> (standard_setup env self st0 = (out0, st1)
        \<and> (update_call self required_submodule, rc) \<in> set (commands (new_events st0 st1))
        \<and> rc \<noteq> 0 \<longrightarrow>
      out0 = Ret (Some 0) \<or> (\<exists>e. out0 = Raise e \<and> \<not> is_RuntimeError e))"
proof (intro conjI impI)
  assume h: "fetch_repo_try env self required_submodule st = (out, st')
      \<and> (update_call self required_submodule, rc) \<in> set (commands (new_events st st'))
      \<and> rc \<noteq> 0"
  then have it: "fetch_repo_try env self required_submodule st = (out, st')"
    and failed: "(update_call self required_submodule, rc) \<in> set (commands (new_events st st'))"
    and rc: "rc \<noteq> 0"
    by simp_all
  from failed_update_in_iteration [OF it failed rc]
  show "out = Ret ()"
    and "\<exists>before. new_events st st' =
          before @
          [Run (update_call self required_submodule) rc,
           Log ERROR (''Failed to fetch '' @ rs_path required_submodule),
           Log ERROR ''FAILED!\<newline>'',
           Log ERROR ''Failed to fetch required repository!\<newline>'',
           Log ERROR ''Unable to checkout repo due to error'']"
    by simp_all
  with it show "fetch_repos env self (required_submodule # rest) st = fetch_repos env self rest st'"
    by (simp add: andthen_def)
next
  assume "standard_setup env self st0 = (out0, st1)
        \<and> (update_call self required_submodule, rc) \<in> set (commands (new_events st0 st1))
        \<and> rc \<noteq> 0"
  then show "out0 = Ret (Some 0) \<or> (\<exists>e. out0 = Raise e \<and> \<not> is_RuntimeError e)"
    using standard_setup_status by blast
qed

text \<open>
  In the example workspace the update of \<open>Common/Nt\<close> fails; \<open>Silicon/Arm\<close> is
  still fetched and the status is \<open>0\<close>.
\<close>

theorem failed_update_is_not_fatal_witness:
  "(update_call demo_self \<lparr>rs_path = ''Common/Nt'', rs_recursive = True\<rparr>, 1)
     \<in> set (commands (new_events demo_state
           (snd (fetch_repo_try
                   (demo_env [''submodule update --init --recursive --progress Common/Nt''] [] [])
                   demo_self \<lparr>rs_path = ''Common/Nt'', rs_recursive = True\<rparr> demo_state))))
   \<and> fst (fetch_repo_try
            (demo_env [''submodule update --init --recursive --progress Common/Nt''] [] [])
            demo_self \<lparr>rs_path = ''Common/Nt'', rs_recursive = True\<rparr> demo_state) = Ret ()
   \<and> commands (new_events demo_state
        (snd (standard_setup
                (demo_env [''submodule update --init --recursive --progress Common/Nt''] [] [])
                demo_self demo_state)))
       = [(git ''submodule sync -- Common/Nt Silicon/Arm'' (Some ''/ws''), 0),
          (git ''submodule update --init --recursive --progress Common/Nt'' (Some ''/ws''), 1),
          (git ''submodule update --init --progress Silicon/Arm'' (Some ''/ws''), 0)]
   \<and> fst (standard_setup
            (demo_env [''submodule update --init --recursive --progress Common/Nt''] [] [])
            demo_self demo_state) = Ret (Some 0)"
proof -
  let ?env = "demo_env [''submodule update --init --recursive --progress Common/Nt''] [] []"
  let ?rs = "\<lparr>rs_path = ''Common/Nt'', rs_recursive = True\<rparr>"
  let ?it = "fetch_repo_try ?env demo_self ?rs demo_state"
  have it: "?it = (fst ?it, snd ?it)" by simp
  have failed: "(update_call demo_self ?rs, 1)
      \<in> set (commands (new_events demo_state (snd ?it)))"
    by code_simp
  have rc: "(1::int) \<noteq> 0" by simp
  from failed_update_is_not_fatal [THEN conjunct1, THEN mp, OF conjI [OF it conjI [OF failed rc]]]
  have continues: "fst ?it = Ret ()" by (rule conjunct1)
  have cmds: "commands (new_events demo_state (snd (standard_setup ?env demo_self demo_state)))
       = [(git ''submodule sync -- Common/Nt Silicon/Arm'' (Some ''/ws''), 0),
          (git ''submodule update --init --recursive --progress Common/Nt'' (Some ''/ws''), 1),
          (git ''submodule update --init --progress Silicon/Arm'' (Some ''/ws''), 0)]"
    by code_simp
  have status: "fst (standard_setup ?env demo_self demo_state) = Ret (Some 0)"
    by code_simp
  from failed continues cmds status show ?thesis by (simp only: simp_thms)
qed

section \<open>NuGet verification\<close>

lemma is_RuntimeError_sha256_mismatch: "is_RuntimeError (sha256_mismatch h)"
  by (simp add: sha256_mismatch_def)

text \<open>
  Claim C9. \<open>DownloadNuget\<close> computes the hash of the file on disk in two cases: the
  file was there before the call, or it was not and the download delivered its content.
  In the first case no URL is opened (the trace of the call is unchanged), and the
  verification runs all the same. In both cases, when the hash differs from the pinned
  constant (both in lower case), the call raises the \<open>RuntimeError\<close> of the mismatch
  and the file is no longer on disk in the state the call leaves; when the hash agrees
  the call returns and the file is on disk with that content.
\<close>

theorem nuget_failed_verification_removes_file:
  assumes content:
    "files d (out_file_name env unpack_folder) = Some content \<or>
     files d (out_file_name env unpack_folder) = None \<and> urlopen env URL = Inr (Inr content)"
  shows "fst (DownloadNuget env unpack_folder d) =
           (if lower (sha256_hexdigest env content) \<noteq> lower SHA256
            then Raise (sha256_mismatch (sha256_hexdigest env content))
            else Ret ())
   \<and> is_RuntimeError (sha256_mismatch (sha256_hexdigest env content))
   \<and> files (snd (DownloadNuget env unpack_folder d)) (out_file_name env unpack_folder) =
           (if lower (sha256_hexdigest env content) \<noteq> lower SHA256 then None else Some content)
   \<and> events (snd (DownloadNuget env unpack_folder d)) =
           (if files d (out_file_name env unpack_folder) = None
            then events d @ [UrlOpen URL] else events d)"
  using content
  by (auto simp: DownloadNuget_def download_def Let_def andthen_def
      is_RuntimeError_sha256_mismatch)

text \<open>
  A tampered file that is already in the target folder is removed without any download;
  a genuine one is kept; a download of the wrong content into the default folder is
  removed again.
\<close>

theorem nuget_failed_verification_removes_file_witness:
  "files (demo_disk ''tampered'') (out_file_name demo_nuget_env (Some ''/tools'')) = Some ''tampered''
   \<and> fst (DownloadNuget demo_nuget_env (Some ''/tools'') (demo_disk ''tampered''))
       = Raise (sha256_mismatch ''00'')
   \<and> files (snd (DownloadNuget demo_nuget_env (Some ''/tools'') (demo_disk ''tampered'')))
         ''/tools/NuGet.exe'' = None
   \<and> events (snd (DownloadNuget demo_nuget_env (Some ''/tools'') (demo_disk ''tampered''))) = []
   \<and> fst (DownloadNuget demo_nuget_env (Some ''/tools'') (demo_disk ''nuget 5.10.0'')) = Ret ()
   \<and> files (snd (DownloadNuget demo_nuget_env (Some ''/tools'') (demo_disk ''nuget 5.10.0'')))
         ''/tools/NuGet.exe'' = Some ''nuget 5.10.0''
   \<and> fst (DownloadNuget demo_nuget_env None (demo_disk ''tampered''))
       = Raise (sha256_mismatch ''00'')
   \<and> files (snd (DownloadNuget demo_nuget_env None (demo_disk ''tampered'')))
         ''/pkg/bin/NuGet.exe'' = None
   \<and> events (snd (DownloadNuget demo_nuget_env None (demo_disk ''tampered''))) = [UrlOpen URL]"
proof -
  let ?env = demo_nuget_env
  let ?bad = "demo_disk ''tampered''"
  let ?good = "demo_disk ''nuget 5.10.0''"
  have name: "out_file_name ?env (Some ''/tools'') = ''/tools/NuGet.exe''" by code_simp
  have name': "out_file_name ?env None = ''/pkg/bin/NuGet.exe''" by code_simp
  have there: "files ?bad (out_file_name ?env (Some ''/tools'')) = Some ''tampered''"
    by code_simp
  have there': "files ?good (out_file_name ?env (Some ''/tools'')) = Some ''nuget 5.10.0''"
    by code_simp
  have absent: "files ?bad (out_file_name ?env None) = None \<and> urlopen ?env URL = Inr (Inr ''payload'')"
    by code_simp
  have differs: "lower ''00'' \<noteq> lower SHA256" by code_simp
  have absent': "files ?bad ''/pkg/bin/NuGet.exe'' = None" by code_simp
  have same: "lower (sha256_hexdigest ?env ''nuget 5.10.0'') = lower SHA256" by code_simp
  have h: "sha256_hexdigest ?env ''tampered'' = ''00''" "sha256_hexdigest ?env ''payload'' = ''00''"
    by code_simp+
  have ev: "events ?bad = []" by code_simp
  note t1 = nuget_failed_verification_removes_file [OF disjI1 [OF there]]
  note t2 = nuget_failed_verification_removes_file [OF disjI1 [OF there']]
  note t3 = nuget_failed_verification_removes_file [OF disjI2 [OF absent]]
  from t1 t2 t3 there show ?thesis
    by (simp only: differs same h name name' absent' ev simp_thms if_True if_False
        not_True_eq_False not_False_eq_True append_Nil option.distinct)
qed

end
